theory Spec2Isabelle
  imports Main "HOL-Library.Word"
begin

section \<open>Errors\<close>

text \<open>
  A Go \<^verbatim>\<open>error\<close> is a value; \<^verbatim>\<open>nil\<close> is \<open>None\<close> of \<open>error option\<close>.
  The constructors keep apart the errors this repository creates itself
  (\<^verbatim>\<open>fmt.Errorf\<close>, \<^verbatim>\<open>errors.Wrap\<close>, \<^verbatim>\<open>humanizef\<close>) from the errors that libraries
  and the environment hand in.
\<close>

datatype error =
    Errorf string
  | Wrap error string
  | Humanizef error string
  | Semver string
  | External string
  | DeadlineExceeded

text \<open>
  A call either returns to its caller, or never returns, or ends the program with a
  run-time panic (a nil pointer dereference).
\<close>

datatype 'a outcome = Returns 'a | BlocksForever | Panics

section \<open>Strings and numbers of the Go standard library\<close>

text \<open>
  A Go string is a sequence of bytes; \<open>string\<close> is a list of \<open>char\<close>, one per byte.
  \<^verbatim>\<open>strings.TrimSpace\<close> removes leading and trailing runes with the Unicode White_Space
  property; these are their UTF-8 encodings.
\<close>

definition whiteSpace :: "string list" where
  "whiteSpace =
     [[CHR 0x09], [CHR 0x0A], [CHR 0x0B], [CHR 0x0C], [CHR 0x0D], [CHR 0x20],
      [CHR 0xC2, CHR 0x85], [CHR 0xC2, CHR 0xA0],
      [CHR 0xE1, CHR 0x9A, CHR 0x80],
      [CHR 0xE2, CHR 0x80, CHR 0x80], [CHR 0xE2, CHR 0x80, CHR 0x81],
      [CHR 0xE2, CHR 0x80, CHR 0x82], [CHR 0xE2, CHR 0x80, CHR 0x83],
      [CHR 0xE2, CHR 0x80, CHR 0x84], [CHR 0xE2, CHR 0x80, CHR 0x85],
      [CHR 0xE2, CHR 0x80, CHR 0x86], [CHR 0xE2, CHR 0x80, CHR 0x87],
      [CHR 0xE2, CHR 0x80, CHR 0x88], [CHR 0xE2, CHR 0x80, CHR 0x89],
      [CHR 0xE2, CHR 0x80, CHR 0x8A],
      [CHR 0xE2, CHR 0x80, CHR 0xA8], [CHR 0xE2, CHR 0x80, CHR 0xA9],
      [CHR 0xE2, CHR 0x80, CHR 0xAF], [CHR 0xE2, CHR 0x81, CHR 0x9F],
      [CHR 0xE3, CHR 0x80, CHR 0x80]]"

fun isPrefix :: "string \<Rightarrow> string \<Rightarrow> bool" where
  "isPrefix [] s = True"
| "isPrefix (p # ps) [] = False"
| "isPrefix (p # ps) (c # cs) = (p = c \<and> isPrefix ps cs)"

text \<open>The number of bytes of the white-space rune at the start of the string, 0 if none.\<close>

fun spaceWidth :: "string list \<Rightarrow> string \<Rightarrow> nat" where
  "spaceWidth [] s = 0"
| "spaceWidth (w # ws) s = (if w \<noteq> [] \<and> isPrefix w s then length w else spaceWidth ws s)"

function trimLeft :: "string list \<Rightarrow> string \<Rightarrow> string" where
  "trimLeft ws s =
     (if s = [] \<or> spaceWidth ws s = 0 then s else trimLeft ws (drop (spaceWidth ws s) s))"
  by pat_completeness auto
termination
  by (relation "measure (\<lambda>(ws, s). length s)") auto

declare trimLeft.simps [simp del]

definition TrimSpace :: "string \<Rightarrow> string" where
  "TrimSpace s = rev (trimLeft (map rev whiteSpace) (rev (trimLeft whiteSpace s)))"

definition TrimPrefix :: "string \<Rightarrow> string \<Rightarrow> string" where
  "TrimPrefix s p = (if isPrefix p s then drop (length p) s else s)"

text \<open>\<^verbatim>\<open>strings.Split(s, sep)\<close> for a separator of one byte: always at least one part.\<close>

fun Split :: "string \<Rightarrow> char \<Rightarrow> string list" where
  "Split [] sep = [[]]"
| "Split (c # cs) sep =
     (if c = sep then [] # Split cs sep
      else (case Split cs sep of p # ps \<Rightarrow> (c # p) # ps | [] \<Rightarrow> [[c]]))"

text \<open>\<^verbatim>\<open>strings.SplitN(s, sep, n)\<close> for \<open>n > 0\<close>: at most \<open>n\<close> parts, the last one the
  unsplit rest.\<close>

fun SplitN :: "string \<Rightarrow> char \<Rightarrow> nat \<Rightarrow> string list" where
  "SplitN s sep 0 = []"
| "SplitN s sep (Suc 0) = [s]"
| "SplitN [] sep (Suc (Suc n)) = [[]]"
| "SplitN (c # cs) sep (Suc (Suc n)) =
     (if c = sep then [] # SplitN cs sep (Suc n)
      else (case SplitN cs sep (Suc (Suc n)) of p # ps \<Rightarrow> (c # p) # ps | [] \<Rightarrow> [[c]]))"

fun Join :: "string list \<Rightarrow> string \<Rightarrow> string" where
  "Join [] sep = []"
| "Join [p] sep = p"
| "Join (p # q # ps) sep = p @ sep @ Join (q # ps) sep"

definition ContainsAny :: "string \<Rightarrow> string \<Rightarrow> bool" where
  "ContainsAny s chars = list_ex (\<lambda>c. c \<in> set chars) s"

text \<open>\<^verbatim>\<open>strings.IndexRune\<close> for an ASCII rune: the index of its first occurrence.\<close>

fun IndexRune :: "string \<Rightarrow> char \<Rightarrow> nat option" where
  "IndexRune [] r = None"
| "IndexRune (c # cs) r = (if c = r then Some 0 else map_option Suc (IndexRune cs r))"

definition digit :: "int \<Rightarrow> char" where
  "digit d = char_of (48 + d)"

text \<open>\<^verbatim>\<open>strconv.FormatUint(n, 10)\<close>, on the value of the unsigned number.\<close>

function FormatUint :: "int \<Rightarrow> string" where
  "FormatUint n = (if n < 10 then [digit n] else FormatUint (n div 10) @ [digit (n mod 10)])"
  by pat_completeness auto
termination
  by (relation "measure nat") auto

declare FormatUint.simps [simp del]

text \<open>\<^verbatim>\<open>%d\<close> of \<^verbatim>\<open>fmt\<close> on a signed integer.\<close>

definition itoa :: "int \<Rightarrow> string" where
  "itoa i = (if i < 0 then CHR ''-'' # FormatUint (- i) else FormatUint i)"

definition numbers :: string where
  "numbers = ''0123456789''"

definition alphas :: string where
  "alphas = ''abcdefghijklmnopqrstuvwxyzABCDEFGHIJKLMNOPQRSTUVWXYZ-''"

definition alphanum :: string where
  "alphanum = alphas @ numbers"

definition containsOnly :: "string \<Rightarrow> string \<Rightarrow> bool" where
  "containsOnly s compareTo = list_all (\<lambda>c. c \<in> set compareTo) s"

definition hasLeadingZeroes :: "string \<Rightarrow> bool" where
  "hasLeadingZeroes s = (length s > 1 \<and> hd s = CHR ''0'')"

type_synonym uint64 = "64 word"

text \<open>
  \<^verbatim>\<open>strconv.ParseUint(s, 10, 64)\<close> on a string of decimal digits (the callers check
  \<open>containsOnly s numbers\<close> first): an error on the empty string and on a value that
  does not fit 64 bits.
\<close>

definition decimalValue :: "string \<Rightarrow> int" where
  "decimalValue s = foldl (\<lambda>acc c. 10 * acc + (of_char c - 48)) 0 s"

definition ParseUint :: "string \<Rightarrow> error + uint64" where
  "ParseUint s =
     (if s = [] then Inl (External ''strconv.ParseUint: invalid syntax'')
      else if decimalValue s \<ge> 2 ^ 64 then Inl (External ''strconv.ParseUint: value out of range'')
      else Inr (word_of_int (decimalValue s)))"

section \<open>Semantic versions\<close>

text \<open>
  \<^verbatim>\<open>dockerhub.go\<close> parses and compares versions with \<^verbatim>\<open>github.com/blang/semver\<close>
  (v3.5.1 in \<^verbatim>\<open>go.mod\<close>). The library is not part of this repository; the definitions of
  this section follow its \<^verbatim>\<open>Version\<close>, \<^verbatim>\<open>PRVersion\<close>, \<^verbatim>\<open>Parse\<close>, \<^verbatim>\<open>ParseTolerant\<close>,
  \<^verbatim>\<open>Compare\<close> and \<^verbatim>\<open>String\<close>, with the texts of its error messages shortened. The general
  theorems below use of the parser only that it is a function, and of the comparison the
  facts proved about it here.
\<close>

record PRVersion =
  VersionStr :: string
  VersionNum :: uint64
  IsNum :: bool

record Version =
  Major :: uint64
  Minor :: uint64
  Patch :: uint64
  Pre :: "PRVersion list"
  Build :: "string list"

text \<open>The zero value \<^verbatim>\<open>semver.Version{}\<close>.\<close>

definition Version0 :: Version where
  "Version0 = \<lparr>Major = 0, Minor = 0, Patch = 0, Pre = [], Build = []\<rparr>"

definition NewPRVersion :: "string \<Rightarrow> error + PRVersion" where
  "NewPRVersion s =
     (if length s = 0 then Inl (Semver ''Prerelease is empty'')
      else if containsOnly s numbers then
        (if hasLeadingZeroes s
         then Inl (Semver ''Numeric PreRelease version must not contain leading zeroes'')
         else (case ParseUint s of
                 Inl err \<Rightarrow> Inl err
               | Inr num \<Rightarrow> Inr \<lparr>VersionStr = [], VersionNum = num, IsNum = True\<rparr>))
      else if containsOnly s alphanum then
        Inr \<lparr>VersionStr = s, VersionNum = 0, IsNum = False\<rparr>
      else Inl (Semver ''Invalid character(s) found in prerelease''))"

fun parsePre :: "string list \<Rightarrow> error + PRVersion list" where
  "parsePre [] = Inr []"
| "parsePre (prstr # rest) =
     (case NewPRVersion prstr of
        Inl err \<Rightarrow> Inl err
      | Inr parsedPR \<Rightarrow>
          (case parsePre rest of Inl err \<Rightarrow> Inl err | Inr prs \<Rightarrow> Inr (parsedPR # prs)))"

fun parseBuild :: "string list \<Rightarrow> error + string list" where
  "parseBuild [] = Inr []"
| "parseBuild (str # rest) =
     (if length str = 0 then Inl (Semver ''Build meta data is empty'')
      else if \<not> containsOnly str alphanum
      then Inl (Semver ''Invalid character(s) found in build meta data'')
      else (case parseBuild rest of Inl err \<Rightarrow> Inl err | Inr bs \<Rightarrow> Inr (str # bs)))"

definition parseNumber :: "string \<Rightarrow> string \<Rightarrow> error + uint64" where
  "parseNumber what s =
     (if \<not> containsOnly s numbers
      then Inl (Semver (''Invalid character(s) found in '' @ what @ '' number''))
      else if hasLeadingZeroes s
      then Inl (Semver (what @ '' number must not contain leading zeroes''))
      else ParseUint s)"

definition Parse :: "string \<Rightarrow> error + Version" where
  "Parse s =
     (if length s = 0 then Inl (Semver ''Version string empty'')
      else (case SplitN s CHR ''.'' 3 of
        [p0, p1, p2] \<Rightarrow>
          (case parseNumber ''major'' p0 of
             Inl err \<Rightarrow> Inl err
           | Inr major \<Rightarrow>
          (case parseNumber ''minor'' p1 of
             Inl err \<Rightarrow> Inl err
           | Inr minor \<Rightarrow>
             let (build, patchStr1) =
                   (case IndexRune p2 CHR ''+'' of
                      Some buildIndex \<Rightarrow>
                        (Split (drop (buildIndex + 1) p2) CHR ''.'', take buildIndex p2)
                    | None \<Rightarrow> ([], p2));
                 (prerelease, patchStr) =
                   (case IndexRune patchStr1 CHR ''-'' of
                      Some preIndex \<Rightarrow>
                        (Split (drop (preIndex + 1) patchStr1) CHR ''.'', take preIndex patchStr1)
                    | None \<Rightarrow> ([], patchStr1))
             in (case parseNumber ''patch'' patchStr of
                   Inl err \<Rightarrow> Inl err
                 | Inr patch \<Rightarrow>
                (case parsePre prerelease of
                   Inl err \<Rightarrow> Inl err
                 | Inr pre \<Rightarrow>
                (case parseBuild build of
                   Inl err \<Rightarrow> Inl err
                 | Inr bld \<Rightarrow>
                     Inr \<lparr>Major = major, Minor = minor, Patch = patch,
                          Pre = pre, Build = bld\<rparr>)))))
      | _ \<Rightarrow> Inl (Semver ''No Major.Minor.Patch elements found'')))"

function padParts :: "string list \<Rightarrow> string list" where
  "padParts parts = (if length parts < 3 then padParts (parts @ [''0'']) else parts)"
  by pat_completeness auto
termination
  by (relation "measure (\<lambda>parts. 3 - length parts)") auto

declare padParts.simps [simp del]

definition ParseTolerant :: "string \<Rightarrow> error + Version" where
  "ParseTolerant s0 =
     (let s = TrimPrefix (TrimSpace s0) ''v'';
          parts = SplitN s CHR ''.'' 3
      in if length parts < 3
         then (if ContainsAny (last parts) ''+-''
               then Inl (Semver ''Short version cannot contain PreRelease/Build meta data'')
               else Parse (Join (padParts parts) ''.''))
         else Parse s)"

text \<open>Go compares strings byte by byte; a proper prefix is smaller.\<close>

fun string_gt :: "string \<Rightarrow> string \<Rightarrow> bool" where
  "string_gt [] t = False"
| "string_gt (a # as) [] = True"
| "string_gt (a # as) (b # bs) =
     (if a = b then string_gt as bs else (of_char b :: nat) < of_char a)"

definition PRVersion_Compare :: "PRVersion \<Rightarrow> PRVersion \<Rightarrow> int" where
  "PRVersion_Compare v w =
     (if IsNum v \<and> \<not> IsNum w then - 1
      else if \<not> IsNum v \<and> IsNum w then 1
      else if IsNum v \<and> IsNum w then
        (if VersionNum v = VersionNum w then 0
         else if VersionNum v > VersionNum w then 1
         else - 1)
      else
        (if VersionStr v = VersionStr w then 0
         else if string_gt (VersionStr v) (VersionStr w) then 1
         else - 1))"

text \<open>The loop of \<^verbatim>\<open>Version.Compare\<close> over the two pre-release lists, with its
  comparison of the lengths once one list is used up.\<close>

fun Pre_Compare :: "PRVersion list \<Rightarrow> PRVersion list \<Rightarrow> int" where
  "Pre_Compare [] [] = 0"
| "Pre_Compare [] (y # ys) = - 1"
| "Pre_Compare (x # xs) [] = 1"
| "Pre_Compare (x # xs) (y # ys) =
     (if PRVersion_Compare x y = 0 then Pre_Compare xs ys
      else if PRVersion_Compare x y = 1 then 1
      else - 1)"

definition Compare :: "Version \<Rightarrow> Version \<Rightarrow> int" where
  "Compare v w =
     (if Major v \<noteq> Major w then (if Major v > Major w then 1 else - 1)
      else if Minor v \<noteq> Minor w then (if Minor v > Minor w then 1 else - 1)
      else if Patch v \<noteq> Patch w then (if Patch v > Patch w then 1 else - 1)
      else if length (Pre v) = 0 \<and> length (Pre w) = 0 then 0
      else if length (Pre v) = 0 \<and> length (Pre w) > 0 then 1
      else if length (Pre v) > 0 \<and> length (Pre w) = 0 then - 1
      else Pre_Compare (Pre v) (Pre w))"

definition Equals :: "Version \<Rightarrow> Version \<Rightarrow> bool" where
  "Equals v w = (Compare v w = 0)"

definition GT :: "Version \<Rightarrow> Version \<Rightarrow> bool" where
  "GT v w = (Compare v w = 1)"

definition GTE :: "Version \<Rightarrow> Version \<Rightarrow> bool" where
  "GTE v w = (Compare v w \<ge> 0)"

definition LT :: "Version \<Rightarrow> Version \<Rightarrow> bool" where
  "LT v w = (Compare v w = - 1)"

definition PRVersion_String :: "PRVersion \<Rightarrow> string" where
  "PRVersion_String v = (if IsNum v then FormatUint (uint (VersionNum v)) else VersionStr v)"

definition Version_String :: "Version \<Rightarrow> string" where
  "Version_String v =
     FormatUint (uint (Major v)) @ ''.'' @ FormatUint (uint (Minor v)) @ ''.''
       @ FormatUint (uint (Patch v))
       @ (if length (Pre v) > 0 then ''-'' @ Join (map PRVersion_String (Pre v)) ''.'' else [])
       @ (if length (Build v) > 0 then ''+'' @ Join (Build v) ''.'' else [])"

section \<open>The registry client of \<^verbatim>\<open>docker/dockerhub.go\<close>\<close>

text \<open>
  \<^verbatim>\<open>getTags\<close> sends two HTTP requests through \<^verbatim>\<open>dockerHubClient\<close>. The registry is the
  environment: for each request it either fails (the client returns an error) or answers
  with a status code and a body, which the JSON decoder either rejects or decodes. The
  requests that were sent are returned next to the result, in order.

  The token request is made with \<^verbatim>\<open>c.Get\<close>, which returns every error as its own, and its
  URL carries the image inside \<^verbatim>\<open>v.Encode()\<close>. The request for the tag list is built by
  \<^verbatim>\<open>http.NewRequest\<close> from a URL that contains the image as it is, and the error of that call
  is dropped (\<^verbatim>\<open>req, _ := http.NewRequest(...)\<close>): if the URL does not parse, as for the
  image \<^verbatim>\<open>a%zz\<close>, \<^verbatim>\<open>req\<close> is \<^verbatim>\<open>nil\<close>, and the next statement,
  \<^verbatim>\<open>req.Header.Add\<close>, dereferences it: \<^verbatim>\<open>getTags\<close> panics and no second request is sent.
  \<open>newRequestErr\<close> is the error of \<^verbatim>\<open>http.NewRequest\<close> for the tag-list URL of an image,
  \<open>None\<close> if the request is built.
\<close>

datatype 'a response = Response (StatusCode: int) (Body: "error + 'a")

record registry =
  tokenRequest :: "string \<Rightarrow> error + string response"
  newRequestErr :: "string \<Rightarrow> error option"
  tagsRequest :: "string \<Rightarrow> string \<Rightarrow> error + string list response"

datatype request = GetToken string | GetTagsList string string

definition StatusOK :: int where
  "StatusOK = 200"

definition getTags ::
  "registry \<Rightarrow> string \<Rightarrow> (error + string list) outcome \<times> request list" where
  "getTags c img =
     (case tokenRequest c img of
        Inl err \<Rightarrow>
          (Returns (Inl (Wrap err ''can't authorize in docker registry'')), [GetToken img])
      | Inr r \<Rightarrow>
          if StatusCode r \<noteq> StatusOK
          then (Returns (Inl (Errorf (''incorrect status code: '' @ itoa (StatusCode r)
                        @ '' while requesting docker registry token''))),
                [GetToken img])
          else (case Body r of
             Inl err \<Rightarrow>
               (Returns (Inl (Wrap err
                  ''can't parse authorization response from docker registry'')),
                [GetToken img])
           | Inr token \<Rightarrow>
               (case newRequestErr c img of
                  Some err \<Rightarrow> (Panics, [GetToken img])
                | None \<Rightarrow>
                   (case tagsRequest c img token of
                      Inl err \<Rightarrow>
                        (Returns (Inl (Wrap err ''can't request list of tags in docker registry'')),
                         [GetToken img, GetTagsList img token])
                    | Inr r2 \<Rightarrow>
                        if StatusCode r2 \<noteq> StatusOK
                        then (Returns (Inl (Errorf (''incorrect status code: ''
                                @ itoa (StatusCode r2)
                                @ '' while requesting the list of tags in docker registry''))),
                              [GetToken img, GetTagsList img token])
                        else (case Body r2 of
                           Inl err \<Rightarrow>
                             (Returns (Inl (Wrap err
                                ''can't parse tags response from docker registry'')),
                              [GetToken img, GetTagsList img token])
                         | Inr tags \<Rightarrow>
                             (Returns (Inr tags), [GetToken img, GetTagsList img token]))))))"

subsection \<open>Selection of the compatible tag\<close>

text \<open>The body of the loop of \<^verbatim>\<open>getCompatibleTag\<close>, on the loop state
  \<open>(newestV, hasNewBreakingTag)\<close>; each \<^verbatim>\<open>continue\<close> returns the state.\<close>

definition getCompatibleTag_body ::
  "Version \<Rightarrow> Version \<Rightarrow> string \<Rightarrow> Version \<times> bool \<Rightarrow> Version \<times> bool" where
  "getCompatibleTag_body cliV breakingV tag st =
     (case st of (newestV, hasNewBreakingTag) \<Rightarrow>
       (case ParseTolerant tag of
          Inl err \<Rightarrow> (newestV, hasNewBreakingTag)
        | Inr v \<Rightarrow>
            if length (Pre v) > 0 then (newestV, hasNewBreakingTag)
            else if LT v cliV then (newestV, hasNewBreakingTag)
            else if GTE v breakingV then (newestV, True)
            else if GT v newestV then (v, hasNewBreakingTag)
            else (newestV, hasNewBreakingTag)))"

definition breakingVersion :: "Version \<Rightarrow> Version" where
  "breakingVersion cliV =
     (if Major cliV \<ge> 1 then Version0\<lparr>Major := Major cliV + 1\<rparr>
      else Version0\<lparr>Minor := Minor cliV + 1\<rparr>)"

definition getCompatibleTag :: "string list \<Rightarrow> Version \<Rightarrow> Version \<times> bool" where
  "getCompatibleTag tags cliV =
     fold (getCompatibleTag_body cliV (breakingVersion cliV)) tags (Version0, False)"

definition getCompatibleTagForPre_body ::
  "Version \<Rightarrow> string \<Rightarrow> Version \<times> bool \<Rightarrow> Version \<times> bool" where
  "getCompatibleTagForPre_body cliV tag st =
     (case st of (newestV, hasNewBreakingTag) \<Rightarrow>
       (case ParseTolerant tag of
          Inl err \<Rightarrow> (newestV, hasNewBreakingTag)
        | Inr v \<Rightarrow>
            if Equals v cliV then (cliV, hasNewBreakingTag)
            else if LT v cliV then (newestV, hasNewBreakingTag)
            else if GT v cliV then (newestV, True)
            else (newestV, hasNewBreakingTag)))"

definition getCompatibleTagForPre :: "string list \<Rightarrow> Version \<Rightarrow> Version \<times> bool" where
  "getCompatibleTagForPre tags cliV =
     fold (getCompatibleTagForPre_body cliV) tags (Version0, False)"

text \<open>
  \<^verbatim>\<open>GetCompatibleTag\<close> returns the Go triple \<^verbatim>\<open>(string, bool, error)\<close>, and with it the
  requests that were sent to the registry. A panic of \<^verbatim>\<open>getTags\<close> is not recovered: it is
  the outcome of \<^verbatim>\<open>GetCompatibleTag\<close> as well.
\<close>

definition notFound :: "string \<Rightarrow> error" where
  "notFound img = Errorf (''can't find compatible image in docker registry for '' @ img)"

definition GetCompatibleTag ::
  "registry \<Rightarrow> string \<Rightarrow> string \<Rightarrow>
     (string \<times> bool \<times> error option) outcome \<times> request list" where
  "GetCompatibleTag c img currentVersion =
     (if currentVersion = [] \<or> currentVersion = ''dev''
      then (Returns (''latest'', False, None), [])
      else (case ParseTolerant currentVersion of
         Inl err \<Rightarrow> (Returns ([], False, Some err), [])
       | Inr cliV \<Rightarrow>
           (case getTags c img of
              (Panics, sent) \<Rightarrow> (Panics, sent)
            | (BlocksForever, sent) \<Rightarrow> (BlocksForever, sent)
            | (Returns (Inl err), sent) \<Rightarrow> (Returns ([], False, Some err), sent)
            | (Returns (Inr tags), sent) \<Rightarrow>
                (case (if length (Pre cliV) > 0
                       then getCompatibleTagForPre tags cliV
                       else getCompatibleTag tags cliV) of
                   (newestV, hasNewBreakingTag) \<Rightarrow>
                     if Equals newestV Version0
                     then (Returns ([], False, Some (notFound img)), sent)
                     else (Returns (''v'' @ Version_String newestV, hasNewBreakingTag, None),
                           sent)))))"

text \<open>A registry that answers both requests with status 200 and the given tag list, for
  images whose tag-list request can be built.\<close>

definition registryWith :: "string list \<Rightarrow> registry" where
  "registryWith tags =
     \<lparr>tokenRequest = (\<lambda>img. Inr (Response 200 (Inr ''token''))),
      newRequestErr = (\<lambda>img. None),
      tagsRequest = (\<lambda>img token. Inr (Response 200 (Inr tags)))\<rparr>"

section \<open>The SQL command of \<^verbatim>\<open>cmd/srcd/cmd/sql.go\<close>\<close>

text \<open>
  The functions of this file start goroutines and wait on channels and timers. A run is
  modelled by what the environment and the scheduler do in it: the results of the calls
  into other packages, and the order of the events a \<^verbatim>\<open>select\<close> waits for. A goroutine that
  waits in a \<^verbatim>\<open>select\<close> goes on with the first of its cases that becomes ready, so that
  order decides; where two cases can be ready before the \<^verbatim>\<open>select\<close> is reached, Go chooses
  one of them, and the choice is part of the run. The runs are the arguments of the
  functions below; the results are what the function returns to its caller and the events
  that happened. A call that never returns is \<open>BlocksForever\<close>, a nil dereference \<open>Panics\<close>.
\<close>

subsection \<open>\<^verbatim>\<open>pingDB\<close>\<close>

text \<open>
  One call of \<^verbatim>\<open>pingDB\<close>: the error of \<^verbatim>\<open>client.SQL\<close>, the error of \<^verbatim>\<open>stream.Recv\<close>, and
  whether the query timeout (\<^verbatim>\<open>ctx.Done()\<close>, one second) fires before the helper goroutine's
  first send on \<^verbatim>\<open>done\<close> is ready. \<^verbatim>\<open>api.EngineClient\<close> is not among the sources, so the
  results of its calls belong to the run.

  The branch \<^verbatim>\<open>if err != nil { done <- err }\<close> after \<^verbatim>\<open>client.SQL\<close> does not return, so
  the goroutine goes on to \<^verbatim>\<open>stream.Recv()\<close> with the stream that came with the error.
  \<open>streamNil\<close> says whether that stream is \<^verbatim>\<open>nil\<close>, as it is from a generated gRPC client:
  then the call dereferences \<^verbatim>\<open>nil\<close> and the goroutine panics, which ends the program.
  A call of \<^verbatim>\<open>client.SQL\<close> that returns no error returns a stream; \<open>streamNil\<close> is read
  only after an error.
\<close>

record ping =
  sqlErr :: "error option"
  streamNil :: bool
  recvErr :: "error option"
  timedOut :: bool

text \<open>
  What the helper goroutine does: its two calls, the sends on \<^verbatim>\<open>done\<close> that were received,
  the send at which it stays blocked, and its panic.
\<close>

datatype event = CallSQL | CallRecv | Sent "error option" | Blocked "error option" | Panic

text \<open>
  \<^verbatim>\<open>done\<close> is unbuffered and its only receiver is the \<^verbatim>\<open>select\<close> of \<^verbatim>\<open>pingDB\<close>, which takes
  one value unless the timeout came first. The state of the goroutine is whether that
  receiver still waits, and the events so far. A send completes if the receiver waits;
  otherwise the goroutine blocks in it for ever (\<open>Inl\<close>).
\<close>

definition send :: "error option \<Rightarrow> bool \<times> event list \<Rightarrow> event list + bool \<times> event list" where
  "send v st =
     (case st of (waiting, evs) \<Rightarrow>
        if waiting then Inr (False, evs @ [Sent v]) else Inl (evs @ [Blocked v]))"

definition helper :: "ping \<Rightarrow> event list" where
  "helper p =
     (case (if sqlErr p \<noteq> None then send (sqlErr p) (\<not> timedOut p, [CallSQL])
            else Inr (\<not> timedOut p, [CallSQL])) of
        Inl evs \<Rightarrow> evs
      | Inr (waiting1, evs1) \<Rightarrow>
          if sqlErr p \<noteq> None \<and> streamNil p then evs1 @ [CallRecv, Panic]
          else
          (case (if recvErr p \<noteq> None then send (recvErr p) (waiting1, evs1 @ [CallRecv])
                 else Inr (waiting1, evs1 @ [CallRecv])) of
             Inl evs \<Rightarrow> evs
           | Inr st2 \<Rightarrow>
               (case send None st2 of
                  Inl evs \<Rightarrow> evs
                | Inr (waiting3, evs3) \<Rightarrow> evs3)))"

fun firstSent :: "event list \<Rightarrow> error option option" where
  "firstSent [] = None"
| "firstSent (Sent v # evs) = Some v"
| "firstSent (e # evs) = firstSent evs"

text \<open>
  The \<^verbatim>\<open>select\<close> of \<^verbatim>\<open>pingDB\<close>: \<^verbatim>\<open>ctx.Err()\<close> after the timeout, else the value
  received from \<^verbatim>\<open>done\<close>. The helper goroutine panics, if it does, right after the send
  that the \<^verbatim>\<open>select\<close> received, and a panic in any goroutine ends the program: the caller
  of \<^verbatim>\<open>pingDB\<close> does not get to act on the value, and the outcome of the call is \<open>Panics\<close>.
  After the timeout the goroutine stays blocked in its first send and never reaches
  \<^verbatim>\<open>stream.Recv\<close>.
\<close>

definition panicked :: "event list \<Rightarrow> bool" where
  "panicked evs = (Panic \<in> set evs)"

definition pingDB :: "ping \<Rightarrow> error option outcome" where
  "pingDB p =
     (if timedOut p then Returns (Some DeadlineExceeded)
      else (case firstSent (helper p) of
              Some err \<Rightarrow> if panicked (helper p) then Panics else Returns err
            | None \<Rightarrow> Returns (Some DeadlineExceeded)))"

fun sends :: "event list \<Rightarrow> nat" where
  "sends [] = 0"
| "sends (Sent v # evs) = Suc (sends evs)"
| "sends (e # evs) = sends evs"

subsection \<open>\<^verbatim>\<open>ensureConnReady\<close>\<close>

text \<open>
  The goroutine of \<^verbatim>\<open>ensureConnReady\<close> calls \<^verbatim>\<open>pingDB\<close> until it returns \<^verbatim>\<open>nil\<close>, sleeping
  one second after each failure, and then sends on \<^verbatim>\<open>done\<close>. The caller waits for that
  send or for the global timeout of five minutes, whichever is ready first. The loop is
  not cancelled by the timeout; what the caller observes of it are the attempts that
  complete before the timeout fires. \<open>probeLoop probes i k\<close> runs the loop from attempt
  \<open>i\<close> for at most \<open>k\<close> attempts and gives the number of calls of \<^verbatim>\<open>pingDB\<close> made when
  the loop was left, \<open>None\<close> if it was not left within these attempts. An attempt whose
  helper goroutine panics ends the program, and with it the wait of the caller.
\<close>

fun probeLoop :: "(nat \<Rightarrow> ping) \<Rightarrow> nat \<Rightarrow> nat \<Rightarrow> nat option outcome" where
  "probeLoop probes i 0 = Returns None"
| "probeLoop probes i (Suc k) =
     (case pingDB (probes i) of
        Returns None \<Rightarrow> Returns (Some (Suc i))
      | Returns (Some err) \<Rightarrow> probeLoop probes (Suc i) k
      | BlocksForever \<Rightarrow> BlocksForever
      | Panics \<Rightarrow> Panics)"

definition globalTimeoutError :: error where
  "globalTimeoutError = Errorf ''global timeout of 5m0s exceeded''"

definition ensureConnReady :: "(nat \<Rightarrow> ping) \<Rightarrow> nat \<Rightarrow> error option outcome" where
  "ensureConnReady probes beforeTimeout =
     (case probeLoop probes 0 beforeTimeout of
        Returns (Some calls) \<Rightarrow> Returns None
      | Returns None \<Rightarrow> Returns (Some globalTimeoutError)
      | BlocksForever \<Rightarrow> BlocksForever
      | Panics \<Rightarrow> Panics)"

subsection \<open>\<^verbatim>\<open>attachStdio\<close>\<close>

text \<open>
  One session: whether standard input is a terminal, the results of
  \<^verbatim>\<open>term.SetRawTerminal\<close>, \<^verbatim>\<open>term.RestoreTerminal\<close> and \<^verbatim>\<open>resp.CloseWrite\<close>, how each of the
  two copy loops ends (\<open>None\<close>: \<^verbatim>\<open>io.Copy\<close> never returns; \<open>Some err\<close>: it returns \<open>err\<close>),
  and, when both loops end, which of them ends first, that is, whose send the \<^verbatim>\<open>select\<close>
  receives.
\<close>

datatype loop = Output | Input

record stdio =
  isTerminal :: bool
  setRawErr :: "error option"
  restoreErr :: "error option"
  closeWriteErr :: "error option"
  outputCopy :: "error option option"
  inputCopy :: "error option option"
  endsFirst :: loop

datatype stdio_event =
    SetRawTerminal
  | RestoreTerminal
  | CloseWrite
  | LogDebug
  | Receive loop "error option"

text \<open>The channel the \<^verbatim>\<open>select\<close> of \<^verbatim>\<open>attachStdio\<close> receives from: the loop that ends
  first, if any ends.\<close>

definition selected :: "stdio \<Rightarrow> loop option" where
  "selected e =
     (case (outputCopy e, inputCopy e) of
        (None, None) \<Rightarrow> None
      | (Some r, None) \<Rightarrow> Some Output
      | (None, Some r) \<Rightarrow> Some Input
      | (Some r, Some r') \<Rightarrow> Some (endsFirst e))"

text \<open>The input goroutine between the end of its copy loop and its send on
  \<^verbatim>\<open>inputDone\<close>.\<close>

definition inputGoroutine :: "stdio \<Rightarrow> stdio_event list" where
  "inputGoroutine e = CloseWrite # (if closeWriteErr e \<noteq> None then [LogDebug] else [])"

text \<open>
  The two goroutines and the \<^verbatim>\<open>select\<close>: the value of the \<^verbatim>\<open>return\<close> statement, and the
  events before it: the receives of the call, and before a receive from \<^verbatim>\<open>inputDone\<close> what
  the input goroutine did before it sent.
\<close>

definition copyLoops :: "stdio \<Rightarrow> stdio_event list \<times> error option outcome" where
  "copyLoops e =
     (case selected e of
        None \<Rightarrow> ([], BlocksForever)
      | Some Output \<Rightarrow>
          (case outputCopy e of
             Some err \<Rightarrow> ([Receive Output err], Returns err)
           | None \<Rightarrow> ([], BlocksForever))
      | Some Input \<Rightarrow>
          (case inputCopy e of
             None \<Rightarrow> ([], BlocksForever)
           | Some err \<Rightarrow>
               if err = None
               then (case outputCopy e of
                       Some err' \<Rightarrow>
                         (inputGoroutine e @ [Receive Input err, Receive Output err'],
                          Returns err')
                     | None \<Rightarrow> (inputGoroutine e @ [Receive Input err], BlocksForever))
               else (inputGoroutine e @ [Receive Input err], Returns err)))"

text \<open>\<^verbatim>\<open>attachStdio\<close> has the named result \<^verbatim>\<open>err\<close>; the deferred function assigns the result
  of \<^verbatim>\<open>term.RestoreTerminal\<close> to it after the \<^verbatim>\<open>return\<close> statement has set it.\<close>

definition attachStdio :: "stdio \<Rightarrow> stdio_event list \<times> error option outcome" where
  "attachStdio e =
     (if isTerminal e
      then (case setRawErr e of
              Some err \<Rightarrow> ([SetRawTerminal], Returns (Some err))
            | None \<Rightarrow>
                (case copyLoops e of
                   (evs, Returns err) \<Rightarrow>
                     (SetRawTerminal # evs @ [RestoreTerminal], Returns (restoreErr e))
                 | (evs, stuck) \<Rightarrow> (SetRawTerminal # evs, stuck)))
      else copyLoops e)"

text \<open>Whether the call received the output loop's completion before it returned.\<close>

definition waitedForOutput :: "stdio_event list \<Rightarrow> bool" where
  "waitedForOutput evs = list_ex (\<lambda>ev. case ev of Receive Output err \<Rightarrow> True | _ \<Rightarrow> False) evs"

subsection \<open>\<^verbatim>\<open>sqlCmd.Execute\<close>\<close>

text \<open>
  One run of the command: the results of the calls into the daemon client, docker and the
  operating system. \<open>stdinMode\<close> is whether standard input is a character device (\<open>None\<close>:
  \<^verbatim>\<open>os.Stdin.Stat\<close> fails and the ignored error leaves \<^verbatim>\<open>fi\<close> nil); \<open>exit\<close> is the code that
  the watcher goroutine of \<^verbatim>\<open>docker.Attach\<close> sends on the exit channel (\<open>None\<close>: the wait
  for the container never ends). The deferred \<^verbatim>\<open>resp.Close\<close> and \<^verbatim>\<open>stopMysqlClient\<close> and the
  goroutine that waits for an interrupt signal do not change what \<^verbatim>\<open>Execute\<close> returns
  (its result is not named) and are left out.
\<close>

record run =
  daemonClientErr :: "error option"
  startComponentErr :: "error option"
  ensureInstalledErr :: "error option"
  probes :: "nat \<Rightarrow> ping"
  beforeTimeout :: nat
  stdinMode :: "bool option"
  stdinRead :: "error + string"
  runMysqlCliErr :: "error option"
  stdoutCopyErr :: "error option"
  exit :: "64 word option"
  session :: stdio

text \<open>
  Modelled from the spec: \<^verbatim>\<open>humanizef\<close> is not among the sources. By the spec, fatal errors
  are wrapped with a human-readable action description before they surface; \<open>Humanizef\<close>
  is that wrapping.
\<close>

definition humanizef :: "error \<Rightarrow> string \<Rightarrow> error" where
  "humanizef err msg = Humanizef err msg"

definition startGitbaseWithClient :: "run \<Rightarrow> error option" where
  "startGitbaseWithClient env =
     (case startComponentErr env of
        Some err \<Rightarrow> Some (humanizef err ''could not start gitbase'')
      | None \<Rightarrow>
          (case ensureInstalledErr env of
             Some err \<Rightarrow> Some (humanizef err ''could not install mysql client'')
           | None \<Rightarrow> None))"

text \<open>The query: the trimmed argument, or else all of standard input when it is piped.\<close>

definition readQuery :: "string \<Rightarrow> run \<Rightarrow> (error + string) outcome" where
  "readQuery argsQuery env =
     (if argsQuery \<noteq> [] then Returns (Inr (TrimSpace argsQuery))
      else (case stdinMode env of
              None \<Rightarrow> Panics
            | Some charDevice \<Rightarrow>
                if \<not> charDevice
                then (case stdinRead env of
                        Inl err \<Rightarrow> Returns (Inl (humanizef err ''could not read input''))
                      | Inr b \<Rightarrow> Returns (Inr b))
                else Returns (Inr [])))"

text \<open>The one-shot branch of \<^verbatim>\<open>Execute\<close>; \<^verbatim>\<open>int\<close> has 64 bits.\<close>

definition oneShot :: "run \<Rightarrow> error option outcome" where
  "oneShot env =
     (case stdoutCopyErr env of
        Some err \<Rightarrow> Returns (Some err)
      | None \<Rightarrow>
          (case exit env of
             None \<Rightarrow> BlocksForever
           | Some code \<Rightarrow>
               if sint code \<noteq> 0
               then Returns (Some (Errorf (''MySQL exited with status '' @ itoa (sint code))))
               else Returns None))"

definition Execute :: "string list \<Rightarrow> string \<Rightarrow> run \<Rightarrow> error option outcome" where
  "Execute args argsQuery env =
     (if length args > 0
      then Returns (Some (Errorf ''too many arguments, expected only one query or nothing''))
      else (case daemonClientErr env of
         Some err \<Rightarrow> Returns (Some (humanizef err ''could not get daemon client''))
       | None \<Rightarrow>
      (case startGitbaseWithClient env of
         Some err \<Rightarrow> Returns (Some err)
       | None \<Rightarrow>
      (case ensureConnReady (probes env) (beforeTimeout env) of
         Returns (Some err) \<Rightarrow> Returns (Some (humanizef err ''could not connect to gitbase''))
       | BlocksForever \<Rightarrow> BlocksForever
       | Panics \<Rightarrow> Panics
       | Returns None \<Rightarrow>
      (case readQuery argsQuery env of
         Returns (Inl err) \<Rightarrow> Returns (Some err)
       | Returns (Inr query) \<Rightarrow>
           (case runMysqlCliErr env of
              Some err \<Rightarrow> Returns (Some (humanizef err ''could not run mysql client''))
            | None \<Rightarrow>
                if query \<noteq> [] then oneShot env else snd (attachStdio (session env)))
       | BlocksForever \<Rightarrow> BlocksForever
       | Panics \<Rightarrow> Panics)))))"

section \<open>Terms of the specification\<close>

text \<open>The versions that the tags of a list parse to, in the order of the list;
  unparseable tags are left out.\<close>

definition parsed :: "string list \<Rightarrow> Version list" where
  "parsed tags =
     concat (map (\<lambda>tag. case ParseTolerant tag of Inl err \<Rightarrow> [] | Inr v \<Rightarrow> [v]) tags)"

text \<open>The registry fails for an image: the token request or the tag-list request, once
  sent, fails or answers with a status other than 200, or one of the two bodies does not
  parse. The tag-list request is sent when the token response was decoded and the request
  was built.\<close>

definition registryFails :: "registry \<Rightarrow> string \<Rightarrow> bool" where
  "registryFails c img =
     (case tokenRequest c img of
        Inl err \<Rightarrow> True
      | Inr r \<Rightarrow>
          StatusCode r \<noteq> 200 \<or>
          (case Body r of
             Inl err \<Rightarrow> True
           | Inr token \<Rightarrow>
               newRequestErr c img = None \<and>
               (case tagsRequest c img token of
                  Inl err \<Rightarrow> True
                | Inr r2 \<Rightarrow> StatusCode r2 \<noteq> 200 \<or> isl (Body r2))))"

text \<open>
  The stable-client algorithm in the words of the specification. A version is breaking
  for the current version when it is stable, not less than the current version, and at or
  above the breaking boundary; the candidates are the stable versions among the parsed
  tags that are not less than the current version and below the boundary.
\<close>

definition breaking :: "Version \<Rightarrow> Version \<Rightarrow> bool" where
  "breaking cliV v = (Pre v = [] \<and> \<not> LT v cliV \<and> GTE v (breakingVersion cliV))"

definition candidates :: "Version \<Rightarrow> string list \<Rightarrow> Version list" where
  "candidates cliV tags =
     filter (\<lambda>v. Pre v = [] \<and> \<not> LT v cliV \<and> \<not> GTE v (breakingVersion cliV)) (parsed tags)"

text \<open>
  The strict maximum of a list above a start value \<open>n\<close>: the first version of the list that
  is greater than \<open>n\<close> and not less than any version of the list, and \<open>n\<close> if there is none.
  \<open>selectStable\<close> is the strict maximum of the candidates, if there is a candidate.
\<close>

definition strictMaximum :: "Version \<Rightarrow> Version list \<Rightarrow> Version" where
  "strictMaximum n vs =
     (case find (\<lambda>v. GT v n \<and> list_all (\<lambda>w. GTE v w) vs) vs of
        Some m \<Rightarrow> m
      | None \<Rightarrow> n)"

definition selectStable :: "Version \<Rightarrow> string list \<Rightarrow> Version option" where
  "selectStable cliV tags =
     find (\<lambda>v. list_all (\<lambda>w. GTE v w) (candidates cliV tags)) (candidates cliV tags)"

text \<open>A run of the SQL command in which every step before the query is sent succeeds:
  the daemon answers, gitbase starts and is ready at the first probe, and the mysql client
  starts. The result of copying its output and the exit code are the parameters.\<close>

definition readyRun :: "error option \<Rightarrow> 64 word option \<Rightarrow> run" where
  "readyRun copyErr code =
     \<lparr>daemonClientErr = None, startComponentErr = None, ensureInstalledErr = None,
      probes = (\<lambda>i. \<lparr>sqlErr = None, streamNil = False, recvErr = None, timedOut = False\<rparr>),
      beforeTimeout = 300, stdinMode = Some True, stdinRead = Inr [],
      runMysqlCliErr = None, stdoutCopyErr = copyErr, exit = code,
      session = \<lparr>isTerminal = False, setRawErr = None, restoreErr = None,
                 closeWriteErr = None, outputCopy = Some None, inputCopy = None,
                 endsFirst = Output\<rparr>\<rparr>"

section \<open>Properties of \<^verbatim>\<open>GetCompatibleTag\<close>\<close>

lemma parsed_Nil: "parsed [] = []"
  by (simp add: parsed_def)

lemma parsed_Cons:
  "parsed (tag # tags) = (case ParseTolerant tag of Inl err \<Rightarrow> parsed tags | Inr v \<Rightarrow> v # parsed tags)"
  by (simp add: parsed_def split: sum.splits)

lemma ParseTolerant_empty: "ParseTolerant [] = Inl (External ''strconv.ParseUint: invalid syntax'')"
  by code_simp

lemma ParseTolerant_dev: "ParseTolerant ''dev'' = Inl (Semver ''Invalid character(s) found in major number'')"
  by code_simp

lemma pre_not_zero: "Pre v \<noteq> [] \<Longrightarrow> \<not> Equals v Version0"
  by (simp add: Equals_def Compare_def Version0_def)

lemma getTags_fails:
  "registryFails c img \<Longrightarrow> \<exists>err. fst (getTags c img) = Returns (Inl err)"
  by (auto simp: registryFails_def getTags_def StatusOK_def split: sum.splits)

lemma getTags_panics:
  "fst (getTags c img) = Panics \<longleftrightarrow>
     (\<exists>r token. tokenRequest c img = Inr r \<and> StatusCode r = 200 \<and> Body r = Inr token \<and>
        newRequestErr c img \<noteq> None)"
  by (auto simp: getTags_def StatusOK_def split: sum.splits option.splits)

lemma getTags_returns_or_panics: "fst (getTags c img) \<noteq> BlocksForever"
  by (auto simp: getTags_def StatusOK_def split: sum.splits option.splits)

text \<open>
  Claim C8. For every image, \<^verbatim>\<open>GetCompatibleTag\<close> called with the empty current version
  or with \<^verbatim>\<open>"dev"\<close> returns the tag \<^verbatim>\<open>"latest"\<close>, the breaking flag false and no error, and
  sends no request to the registry.
\<close>

theorem GetCompatibleTag_dev:
  "GetCompatibleTag c img [] = (Returns (''latest'', False, None), []) \<and>
   GetCompatibleTag c img ''dev'' = (Returns (''latest'', False, None), [])"
  by (simp add: GetCompatibleTag_def)

text \<open>
  A request that is sent and fails. For every image and every current version other than
  the empty one and \<^verbatim>\<open>"dev"\<close>: if the token request fails, or the tag-list request was
  built and fails (an error of the client, a status other than 200, a body that does not
  parse), \<^verbatim>\<open>GetCompatibleTag\<close> returns an error, the empty tag and the breaking flag false.
\<close>

lemma GetCompatibleTag_sent_request_fails:
  assumes "currentVersion \<noteq> []" and "currentVersion \<noteq> ''dev''" and "registryFails c img"
  shows "\<exists>err. fst (GetCompatibleTag c img currentVersion) = Returns ([], False, Some err)"
proof (cases "ParseTolerant currentVersion")
  case (Inl err)
  with assms(1,2) show ?thesis by (simp add: GetCompatibleTag_def)
next
  case (Inr cliV)
  from getTags_fails [OF assms(3)] obtain err where "fst (getTags c img) = Returns (Inl err)" ..
  then obtain sent where "getTags c img = (Returns (Inl err), sent)"
    by (cases "getTags c img") simp
  with Inr assms(1,2) show ?thesis by (simp add: GetCompatibleTag_def)
qed

lemma GetCompatibleTag_sent_request_fails_example:
  "\<exists>err. fst (GetCompatibleTag
      \<lparr>tokenRequest = (\<lambda>i. Inr (Response 503 (Inr []))),
       newRequestErr = (\<lambda>i. None),
       tagsRequest = (\<lambda>i t. Inl (External ''unreachable''))\<rparr> ''srcd/gitbase'' ''0.3.0'')
      = Returns ([], False, Some err)"
  by (rule GetCompatibleTag_sent_request_fails) (simp_all add: registryFails_def)

text \<open>
  A tag-list request that cannot be built. When the current version parses, the token
  response is decoded and \<^verbatim>\<open>http.NewRequest\<close> fails, \<^verbatim>\<open>GetCompatibleTag\<close> panics after the
  token request, whatever the registry would answer to the second request.
\<close>

lemma GetCompatibleTag_unbuilt_request_panics:
  assumes "currentVersion \<noteq> []" and "currentVersion \<noteq> ''dev''"
    and "ParseTolerant currentVersion = Inr cliV"
    and "tokenRequest c img = Inr (Response 200 (Inr token))"
    and "newRequestErr c img = Some err"
  shows "GetCompatibleTag c img currentVersion = (Panics, [GetToken img])"
  using assms by (simp add: GetCompatibleTag_def getTags_def StatusOK_def)

text \<open>
  Claim C6, which says: for every image and non-empty, non-\<^verbatim>\<open>"dev"\<close> current version, if the
  token request or the tag-list request fails, \<^verbatim>\<open>GetCompatibleTag\<close> returns an error and
  no tag. The program does not, for the image \<^verbatim>\<open>a%zz\<close> and the current version \<^verbatim>\<open>0.3.0\<close>:
  the token request is answered with status 200 and a token, the tag-list request fails
  (\<^verbatim>\<open>http.NewRequest\<close> rejects the URL, and the registry cannot be reached either), and
  \<^verbatim>\<open>GetCompatibleTag\<close> panics after the token request instead of returning an error.
\<close>

theorem GetCompatibleTag_panics_on_failed_tags_request:
  "GetCompatibleTag
     \<lparr>tokenRequest = (\<lambda>i. Inr (Response 200 (Inr ''token''))),
      newRequestErr = (\<lambda>i. if i = ''a%zz'' then Some (External ''invalid URL escape'') else None),
      tagsRequest = (\<lambda>i t. Inl (External ''unreachable''))\<rparr> ''a%zz'' ''0.3.0''
     = (Panics, [GetToken ''a%zz'']) \<and>
   (\<exists>err. fst (GetCompatibleTag
     \<lparr>tokenRequest = (\<lambda>i. Inr (Response 200 (Inr ''token''))),
      newRequestErr = (\<lambda>i. if i = ''a%zz'' then Some (External ''invalid URL escape'') else None),
      tagsRequest = (\<lambda>i t. Inl (External ''unreachable''))\<rparr> ''srcd/gitbase'' ''0.3.0'')
     = Returns ([], False, Some err))"
proof -
  have c: "ParseTolerant ''0.3.0'' = Inr (Version0\<lparr>Minor := 3\<rparr>)"
    by code_simp
  show ?thesis
    by (simp add: GetCompatibleTag_def getTags_def StatusOK_def c)
qed

subsection \<open>The pre-release client\<close>

lemma forPre_step:
  "getCompatibleTagForPre_body cliV tag (newestV, flag) =
     (case ParseTolerant tag of
        Inl err \<Rightarrow> (newestV, flag)
      | Inr v \<Rightarrow> (if Equals v cliV then cliV else newestV, flag \<or> GT v cliV))"
  by (auto simp: getCompatibleTagForPre_body_def Equals_def GT_def LT_def split: sum.splits)

lemma forPre_fold:
  "fold (getCompatibleTagForPre_body cliV) tags (newestV, flag) =
     (if list_ex (\<lambda>v. Equals v cliV) (parsed tags) then cliV else newestV,
      flag \<or> list_ex (\<lambda>v. GT v cliV) (parsed tags))"
proof (induction tags arbitrary: newestV flag)
  case Nil
  show ?case by (simp add: parsed_Nil)
next
  case (Cons tag tags)
  show ?case
    by (cases "ParseTolerant tag") (auto simp: forPre_step Cons.IH parsed_Cons)
qed

text \<open>
  Claim C2. Let the current version parse to \<open>cliV\<close> with a pre-release component, and
  let the registry deliver the tag list. Then the loop selects \<open>cliV\<close> itself if some tag
  parses to a version that equals \<open>cliV\<close>, and nothing (the zero version) otherwise; its
  breaking flag says whether some tag parses to a version strictly greater than \<open>cliV\<close>.
  \<^verbatim>\<open>GetCompatibleTag\<close> returns \<open>cliV\<close> prefixed with \<^verbatim>\<open>"v"\<close> and that flag in the first case,
  and the not-found error in the second: a greater version is never what it returns.
\<close>

theorem GetCompatibleTag_prerelease:
  assumes "ParseTolerant currentVersion = Inr cliV" and "Pre cliV \<noteq> []"
    and "getTags c img = (Returns (Inr tags), sent)"
  shows "getCompatibleTagForPre tags cliV =
           (if list_ex (\<lambda>v. Equals v cliV) (parsed tags) then cliV else Version0,
            list_ex (\<lambda>v. GT v cliV) (parsed tags)) \<and>
         GetCompatibleTag c img currentVersion =
           (Returns
              (if list_ex (\<lambda>v. Equals v cliV) (parsed tags)
               then (''v'' @ Version_String cliV, list_ex (\<lambda>v. GT v cliV) (parsed tags), None)
               else ([], False, Some (notFound img))), sent)"
proof -
  have sel: "getCompatibleTagForPre tags cliV =
           (if list_ex (\<lambda>v. Equals v cliV) (parsed tags) then cliV else Version0,
            list_ex (\<lambda>v. GT v cliV) (parsed tags))"
    by (simp add: getCompatibleTagForPre_def forPre_fold)
  have ne: "currentVersion \<noteq> []" "currentVersion \<noteq> ''dev''"
    using assms(1) ParseTolerant_empty ParseTolerant_dev by auto
  have z: "Equals Version0 Version0"
    by (simp add: Equals_def Compare_def Version0_def)
  show ?thesis
    using assms ne pre_not_zero [OF assms(2)] z
    by (simp add: GetCompatibleTag_def sel)
qed

text \<open>
  Witness of C2, the example of the specification: current version \<^verbatim>\<open>1.0.0-beta.1\<close>, tags
  \<^verbatim>\<open>1.0.0-beta.1\<close> and \<^verbatim>\<open>1.0.0\<close>.
\<close>

theorem GetCompatibleTag_prerelease_witness:
  "fst (GetCompatibleTag (registryWith [''1.0.0-beta.1'', ''1.0.0'']) ''srcd/gitbase''
      ''1.0.0-beta.1'') = Returns (''v1.0.0-beta.1'', True, None)"
proof -
  define cliV where "cliV =
    \<lparr>Major = 1, Minor = 0, Patch = 0,
     Pre = [\<lparr>VersionStr = ''beta'', VersionNum = 0, IsNum = False\<rparr>,
            \<lparr>VersionStr = [], VersionNum = 1, IsNum = True\<rparr>],
     Build = []\<rparr>"
  have p: "ParseTolerant ''1.0.0-beta.1'' = Inr cliV"
    unfolding cliV_def by code_simp
  have q: "Pre cliV \<noteq> []"
    by (simp add: cliV_def)
  have t: "getTags (registryWith [''1.0.0-beta.1'', ''1.0.0'']) ''srcd/gitbase'' =
      (Returns (Inr [''1.0.0-beta.1'', ''1.0.0'']),
       [GetToken ''srcd/gitbase'', GetTagsList ''srcd/gitbase'' ''token''])"
    by (simp add: getTags_def registryWith_def StatusOK_def)
  have e: "list_ex (\<lambda>v. Equals v cliV) (parsed [''1.0.0-beta.1'', ''1.0.0''])"
    unfolding cliV_def by code_simp
  have g: "list_ex (\<lambda>v. GT v cliV) (parsed [''1.0.0-beta.1'', ''1.0.0''])"
    unfolding cliV_def by code_simp
  have s: "Version_String cliV = ''1.0.0-beta.1''"
    unfolding cliV_def by code_simp
  from GetCompatibleTag_prerelease [OF p q t] show ?thesis
    by (simp add: e g s)
qed

subsection \<open>The order of versions\<close>

text \<open>\<^verbatim>\<open>Compare\<close> is a total preorder: its value is -1, 0 or 1, swapping the
  arguments negates it, and \<open>0 \<le> Compare\<close> is transitive.\<close>

lemma string_gt_irrefl: "\<not> string_gt s s"
  by (induction s) simp_all

lemma of_char_less_cases:
  assumes "a \<noteq> b"
  shows "((of_char a :: nat) < of_char b) = (\<not> (of_char b :: nat) < of_char a)"
proof -
  have "(of_char a :: nat) \<noteq> of_char b"
    using assms by simp
  then show ?thesis by (auto simp del: of_char_eq_iff)
qed

lemma string_gt_antisym: "s \<noteq> t \<Longrightarrow> string_gt t s = (\<not> string_gt s t)"
proof (induction s t rule: string_gt.induct)
  case (1 t)
  then show ?case by (cases t) simp_all
next
  case (2 a as)
  then show ?case by simp
next
  case (3 a as b bs)
  show ?case
  proof (cases "a = b")
    case True
    with 3 show ?thesis by simp
  next
    case False
    with of_char_less_cases [OF False] show ?thesis by auto
  qed
qed

lemma string_gt_trans: "string_gt s t \<Longrightarrow> string_gt t u \<Longrightarrow> string_gt s u"
proof (induction s t arbitrary: u rule: string_gt.induct)
  case (1 t)
  then show ?case by simp
next
  case (2 a as)
  then show ?case by simp
next
  case (3 a as b bs)
  then show ?case
    by (cases u) (auto split: if_splits)
qed

lemma PRc_range: "PRVersion_Compare v w = - 1 \<or> PRVersion_Compare v w = 0 \<or> PRVersion_Compare v w = 1"
  by (simp add: PRVersion_Compare_def)

lemma PRc_antisym: "PRVersion_Compare w v = - PRVersion_Compare v w"
  using string_gt_antisym [of "VersionStr v" "VersionStr w"]
  by (auto simp: PRVersion_Compare_def)

lemma PRc_trans:
  "0 \<le> PRVersion_Compare u v \<Longrightarrow> 0 \<le> PRVersion_Compare v w \<Longrightarrow> 0 \<le> PRVersion_Compare u w"
  using string_gt_trans [of "VersionStr u" "VersionStr v" "VersionStr w"]
  by (auto simp: PRVersion_Compare_def split: if_splits)

lemma cmp_strict:
  fixes c :: "'a \<Rightarrow> 'a \<Rightarrow> int"
  assumes "\<forall>x y. c x y = - 1 \<or> c x y = 0 \<or> c x y = 1"
    and "\<forall>x y. c y x = - c x y"
    and "\<forall>x y z. 0 \<le> c x y \<longrightarrow> 0 \<le> c y z \<longrightarrow> 0 \<le> c x z"
  shows "c u v = 1 \<Longrightarrow> 0 \<le> c v w \<Longrightarrow> c u w = 1"
    and "0 \<le> c u v \<Longrightarrow> c v w = 1 \<Longrightarrow> c u w = 1"
    and "c u v = 0 \<Longrightarrow> c v w = 0 \<Longrightarrow> c u w = 0"
proof -
  have range: "c x y = - 1 \<or> c x y = 0 \<or> c x y = 1" for x y
    using assms(1) by blast
  have anti: "c y x = - c x y" for x y
    using assms(2) by blast
  have trans: "0 \<le> c x y \<Longrightarrow> 0 \<le> c y z \<Longrightarrow> 0 \<le> c x z" for x y z
    using assms(3) by blast
  show "c u w = 1" if a: "c u v = 1" and b: "0 \<le> c v w"
  proof -
    have "0 \<le> c u w" using trans [of u v w] a b by simp
    moreover have "c u w \<noteq> 0"
    proof
      assume "c u w = 0"
      then have "0 \<le> c w u" using anti [of u w] by simp
      with b have "0 \<le> c v u" by (rule trans [of v w u])
      with a anti [of u v] show False by simp
    qed
    ultimately show ?thesis using range [of u w] by auto
  qed
  show "c u w = 1" if a: "0 \<le> c u v" and b: "c v w = 1"
  proof -
    have "0 \<le> c u w" using trans [of u v w] a b by simp
    moreover have "c u w \<noteq> 0"
    proof
      assume "c u w = 0"
      then have "0 \<le> c w u" using anti [of u w] by simp
      then have "0 \<le> c w v" using a by (rule trans [of w u v])
      with b anti [of v w] show False by simp
    qed
    ultimately show ?thesis using range [of u w] by auto
  qed
  show "c u w = 0" if a: "c u v = 0" and b: "c v w = 0"
  proof -
    have "0 \<le> c u w" using trans [of u v w] a b by simp
    moreover have "0 \<le> c w u" using trans [of w v u] a b anti [of u v] anti [of v w] by simp
    ultimately show ?thesis using anti [of u w] by simp
  qed
qed

lemma PRc_strict:
  shows "PRVersion_Compare u v = 1 \<Longrightarrow> 0 \<le> PRVersion_Compare v w \<Longrightarrow> PRVersion_Compare u w = 1"
    and "0 \<le> PRVersion_Compare u v \<Longrightarrow> PRVersion_Compare v w = 1 \<Longrightarrow> PRVersion_Compare u w = 1"
    and "PRVersion_Compare u v = 0 \<Longrightarrow> PRVersion_Compare v w = 0 \<Longrightarrow> PRVersion_Compare u w = 0"
proof -
  have r: "\<forall>x y. PRVersion_Compare x y = - 1 \<or> PRVersion_Compare x y = 0 \<or> PRVersion_Compare x y = 1"
    using PRc_range by blast
  have a: "\<forall>x y. PRVersion_Compare y x = - PRVersion_Compare x y"
    using PRc_antisym by blast
  have t: "\<forall>x y z. 0 \<le> PRVersion_Compare x y \<longrightarrow> 0 \<le> PRVersion_Compare y z \<longrightarrow> 0 \<le> PRVersion_Compare x z"
    using PRc_trans by blast
  note s = cmp_strict [of PRVersion_Compare, OF r a t]
  show "PRVersion_Compare u v = 1 \<Longrightarrow> 0 \<le> PRVersion_Compare v w \<Longrightarrow> PRVersion_Compare u w = 1"
    by (rule s(1))
  show "0 \<le> PRVersion_Compare u v \<Longrightarrow> PRVersion_Compare v w = 1 \<Longrightarrow> PRVersion_Compare u w = 1"
    by (rule s(2))
  show "PRVersion_Compare u v = 0 \<Longrightarrow> PRVersion_Compare v w = 0 \<Longrightarrow> PRVersion_Compare u w = 0"
    by (rule s(3))
qed

lemma Pre_range: "Pre_Compare xs ys = - 1 \<or> Pre_Compare xs ys = 0 \<or> Pre_Compare xs ys = 1"
  by (induction xs ys rule: Pre_Compare.induct) auto

lemma Pre_antisym: "Pre_Compare ys xs = - Pre_Compare xs ys"
proof (induction xs ys rule: Pre_Compare.induct)
  case (4 x xs y ys)
  then show ?case
    using PRc_antisym [of x y] PRc_range [of x y] by auto
qed simp_all

lemma Pre_trans:
  "0 \<le> Pre_Compare xs ys \<Longrightarrow> 0 \<le> Pre_Compare ys zs \<Longrightarrow> 0 \<le> Pre_Compare xs zs"
proof (induction xs arbitrary: ys zs)
  case Nil
  then show ?case by (cases ys; cases zs) simp_all
next
  case (Cons x xs)
  show ?case
  proof (cases zs)
    case Nil
    then show ?thesis by simp
  next
    case zs: (Cons z zs')
    show ?thesis
    proof (cases ys)
      case Nil
      with Cons.prems zs show ?thesis by simp
    next
      case ys: (Cons y ys')
      from Cons.prems(1) ys have a: "PRVersion_Compare x y = 1 \<or> (PRVersion_Compare x y = 0 \<and> 0 \<le> Pre_Compare xs ys')"
        by (auto split: if_splits)
      from Cons.prems(2) ys zs have b: "PRVersion_Compare y z = 1 \<or> (PRVersion_Compare y z = 0 \<and> 0 \<le> Pre_Compare ys' zs')"
        by (auto split: if_splits)
      from a b consider
          "PRVersion_Compare x y = 1" "0 \<le> PRVersion_Compare y z"
        | "0 \<le> PRVersion_Compare x y" "PRVersion_Compare y z = 1"
        | "PRVersion_Compare x y = 0" "PRVersion_Compare y z = 0"
          "0 \<le> Pre_Compare xs ys'" "0 \<le> Pre_Compare ys' zs'"
        by auto
      then show ?thesis
      proof cases
        case 1
        then have "PRVersion_Compare x z = 1" by (rule PRc_strict(1))
        with zs show ?thesis by simp
      next
        case 2
        then have "PRVersion_Compare x z = 1" by (rule PRc_strict(2))
        with zs show ?thesis by simp
      next
        case 3
        from 3(1,2) have "PRVersion_Compare x z = 0" by (rule PRc_strict(3))
        with zs Cons.IH [OF 3(3,4)] show ?thesis by simp
      qed
    qed
  qed
qed

lemma Compare_range: "Compare v w = - 1 \<or> Compare v w = 0 \<or> Compare v w = 1"
  using Pre_range [of "Pre v" "Pre w"] by (simp add: Compare_def)

lemma Compare_antisym: "Compare w v = - Compare v w"
  using Pre_antisym [of "Pre v" "Pre w"] by (auto simp: Compare_def)

lemma Compare_ge_iff:
  "0 \<le> Compare v w \<longleftrightarrow>
     Major w < Major v \<or> (Major v = Major w \<and>
       (Minor w < Minor v \<or> (Minor v = Minor w \<and>
         (Patch w < Patch v \<or> (Patch v = Patch w \<and>
           (Pre v = [] \<or> (Pre w \<noteq> [] \<and> 0 \<le> Pre_Compare (Pre v) (Pre w))))))))"
  by (auto simp: Compare_def)

lemma Compare_trans: "0 \<le> Compare u v \<Longrightarrow> 0 \<le> Compare v w \<Longrightarrow> 0 \<le> Compare u w"
  using Pre_trans [of "Pre u" "Pre v" "Pre w"] by (auto simp: Compare_ge_iff)

lemma Compare_strict:
  shows "Compare u v = 1 \<Longrightarrow> 0 \<le> Compare v w \<Longrightarrow> Compare u w = 1"
    and "0 \<le> Compare u v \<Longrightarrow> Compare v w = 1 \<Longrightarrow> Compare u w = 1"
    and "Compare u v = 0 \<Longrightarrow> Compare v w = 0 \<Longrightarrow> Compare u w = 0"
proof -
  have r: "\<forall>x y. Compare x y = - 1 \<or> Compare x y = 0 \<or> Compare x y = 1"
    using Compare_range by blast
  have a: "\<forall>x y. Compare y x = - Compare x y"
    using Compare_antisym by blast
  have t: "\<forall>x y z. 0 \<le> Compare x y \<longrightarrow> 0 \<le> Compare y z \<longrightarrow> 0 \<le> Compare x z"
    using Compare_trans by blast
  note s = cmp_strict [of Compare, OF r a t]
  show "Compare u v = 1 \<Longrightarrow> 0 \<le> Compare v w \<Longrightarrow> Compare u w = 1"
    by (rule s(1))
  show "0 \<le> Compare u v \<Longrightarrow> Compare v w = 1 \<Longrightarrow> Compare u w = 1"
    by (rule s(2))
  show "Compare u v = 0 \<Longrightarrow> Compare v w = 0 \<Longrightarrow> Compare u w = 0"
    by (rule s(3))
qed

lemma GT_iff_not_GTE: "GT v w \<longleftrightarrow> \<not> GTE w v"
  using Compare_antisym [of v w] Compare_range [of v w] by (auto simp: GT_def GTE_def)

lemma GTE_refl: "GTE v v"
  using Compare_antisym [of v v] by (simp add: GTE_def)

lemma GTE_trans: "GTE u v \<Longrightarrow> GTE v w \<Longrightarrow> GTE u w"
  unfolding GTE_def by (rule Compare_trans)

lemma GT_GTE_trans: "GT u v \<Longrightarrow> GTE v w \<Longrightarrow> GT u w"
  unfolding GT_def GTE_def by (rule Compare_strict(1))

lemma GTE_GT_trans: "GTE u v \<Longrightarrow> GT v w \<Longrightarrow> GT u w"
  unfolding GT_def GTE_def by (rule Compare_strict(2))

lemma GT_imp_GTE: "GT u v \<Longrightarrow> GTE u v"
  by (simp add: GT_def GTE_def)

lemma GTE_total: "GTE u v \<or> GTE v u"
  using GT_iff_not_GTE [of u v] GT_imp_GTE [of u v] by blast

lemma maximum_exists: "vs \<noteq> [] \<Longrightarrow> \<exists>m\<in>set vs. \<forall>w\<in>set vs. GTE m w"
proof (induction vs)
  case Nil
  then show ?case by simp
next
  case (Cons x xs)
  show ?case
  proof (cases "xs = []")
    case True
    then show ?thesis by (simp add: GTE_refl)
  next
    case False
    with Cons.IH obtain m where m: "m \<in> set xs" "\<forall>w\<in>set xs. GTE m w" by blast
    show ?thesis
    proof (cases "GTE m x")
      case True
      with m show ?thesis by auto
    next
      case False
      then have "GTE x m" using GTE_total by blast
      with m(2) have "\<forall>w\<in>set xs. GTE x w" by (blast intro: GTE_trans)
      then show ?thesis by (auto simp: GTE_refl)
    qed
  qed
qed

text \<open>
  The loop that keeps a version only when it is greater than the one kept so far computes
  the strict maximum.
\<close>

lemma fold_strictMaximum:
  "fold (\<lambda>v best. if GT v best then v else best) vs n = strictMaximum n vs"
proof (induction vs arbitrary: n)
  case Nil
  show ?case by (simp add: strictMaximum_def)
next
  case (Cons x xs)
  show ?case
  proof (cases "GT x n")
    case False
    then have nx: "GTE n x" by (simp add: GT_iff_not_GTE)
    have "(GT v n \<and> list_all (GTE v) (x # xs)) = (GT v n \<and> list_all (GTE v) xs)" for v
      using GT_GTE_trans [OF _ nx, of v] GT_imp_GTE [of v x] by auto
    then have "strictMaximum n (x # xs) = strictMaximum n xs"
      using False by (simp add: strictMaximum_def GTE_refl)
    with False show ?thesis by (simp add: Cons.IH)
  next
    case True
    show ?thesis
    proof (cases "list_all (GTE x) xs")
      case all: True
      have "\<not> (GT v x \<and> list_all (GTE v) xs)" if "v \<in> set xs" for v
        using all that by (auto simp: GT_iff_not_GTE list_all_iff)
      then have "find (\<lambda>v. GT v x \<and> list_all (GTE v) xs) xs = None"
        by (simp add: find_None_iff)
      then have "strictMaximum x xs = x"
        by (simp add: strictMaximum_def)
      moreover have "strictMaximum n (x # xs) = x"
        using True all by (simp add: strictMaximum_def GTE_refl)
      ultimately show ?thesis using True by (simp add: Cons.IH)
    next
      case notall: False
      then obtain w where w: "w \<in> set xs" "GT w x"
        by (auto simp: list_all_iff GT_iff_not_GTE)
      then have "xs \<noteq> []" by auto
      from maximum_exists [OF this] obtain m where m: "m \<in> set xs" "\<forall>w\<in>set xs. GTE m w"
        by blast
      have mx: "GT m x" using m(2) w GTE_GT_trans by blast
      have eq: "(GT v n \<and> list_all (GTE v) (x # xs)) = (GT v x \<and> list_all (GTE v) xs)"
        if "v \<in> set xs" for v
      proof (cases "list_all (GTE v) xs")
        case False
        then show ?thesis by simp
      next
        case True
        with w(1) have "GTE v w" by (simp add: list_all_iff)
        then have vx: "GT v x" using w(2) by (rule GTE_GT_trans)
        then have "GT v n" using True GT_GTE_trans GT_imp_GTE \<open>GT x n\<close> by blast
        with vx True show ?thesis by (simp add: GT_imp_GTE)
      qed
      have "find (\<lambda>v. GT v n \<and> list_all (GTE v) (x # xs)) (x # xs) =
            find (\<lambda>v. GT v n \<and> list_all (GTE v) (x # xs)) xs"
        using notall by simp
      also have "\<dots> = find (\<lambda>v. GT v x \<and> list_all (GTE v) xs) xs"
        using eq by (intro find_cong) auto
      finally have f: "find (\<lambda>v. GT v n \<and> list_all (GTE v) (x # xs)) (x # xs) =
            find (\<lambda>v. GT v x \<and> list_all (GTE v) xs) xs" .
      have "find (\<lambda>v. GT v x \<and> list_all (GTE v) xs) xs \<noteq> None"
        using m mx by (auto simp: find_None_iff list_all_iff)
      then have "strictMaximum n (x # xs) = strictMaximum x xs"
        using f by (auto simp: strictMaximum_def)
      with True show ?thesis by (simp add: Cons.IH)
    qed
  qed
qed

subsection \<open>The stable client\<close>

lemma stable_step:
  "getCompatibleTag_body cliV (breakingVersion cliV) tag (newestV, flag) =
     (case ParseTolerant tag of
        Inl err \<Rightarrow> (newestV, flag)
      | Inr v \<Rightarrow>
          (if Pre v = [] \<and> \<not> LT v cliV \<and> \<not> GTE v (breakingVersion cliV) \<and> GT v newestV
           then v else newestV,
           flag \<or> breaking cliV v))"
  by (auto simp: getCompatibleTag_body_def breaking_def split: sum.splits)

lemma stable_fold:
  "fold (getCompatibleTag_body cliV (breakingVersion cliV)) tags (newestV, flag) =
     (fold (\<lambda>v best. if GT v best then v else best) (candidates cliV tags) newestV,
      flag \<or> list_ex (breaking cliV) (parsed tags))"
proof (induction tags arbitrary: newestV flag)
  case Nil
  show ?case by (simp add: candidates_def parsed_Nil)
next
  case (Cons tag tags)
  show ?case
    by (cases "ParseTolerant tag")
       (auto simp: stable_step Cons.IH parsed_Cons candidates_def)
qed

text \<open>
  The loop of \<^verbatim>\<open>getCompatibleTag\<close>, for every tag list and current version: the selected
  version is the strict maximum of the candidates above the zero version, and the flag
  says whether some tag parses to a breaking version. The boundary is computed as the code
  does, in 64-bit unsigned arithmetic.
\<close>

theorem getCompatibleTag_selects:
  "getCompatibleTag tags cliV =
     (strictMaximum Version0 (candidates cliV tags), list_ex (breaking cliV) (parsed tags))"
  by (simp add: getCompatibleTag_def stable_fold fold_strictMaximum)

lemma not_LT_GTE: "\<not> LT v w \<Longrightarrow> GTE v w"
  using Compare_range [of v w] by (auto simp: LT_def GTE_def)

lemma GT_not_Equals: "GT v w \<Longrightarrow> \<not> Equals v w"
  by (simp add: GT_def Equals_def)

lemma candidates_above:
  assumes "GT cliV Version0" and "v \<in> set (candidates cliV tags)"
  shows "GT v Version0"
proof -
  from assms(2) have "GTE v cliV" by (auto simp: candidates_def intro: not_LT_GTE)
  then show ?thesis using assms(1) by (rule GTE_GT_trans)
qed

lemma strictMaximum_candidates:
  assumes "GT cliV Version0"
  shows "strictMaximum Version0 (candidates cliV tags) =
           (case selectStable cliV tags of Some m \<Rightarrow> m | None \<Rightarrow> Version0)"
proof -
  have "find (\<lambda>v. GT v Version0 \<and> list_all (GTE v) (candidates cliV tags)) (candidates cliV tags) =
        find (\<lambda>v. list_all (GTE v) (candidates cliV tags)) (candidates cliV tags)"
    using candidates_above [OF assms] by (intro find_cong) auto
  then show ?thesis by (simp add: strictMaximum_def selectStable_def)
qed

lemma selectStable_None: "selectStable cliV tags = None \<longleftrightarrow> candidates cliV tags = []"
proof
  assume n: "selectStable cliV tags = None"
  show "candidates cliV tags = []"
  proof (rule ccontr)
    assume "candidates cliV tags \<noteq> []"
    from maximum_exists [OF this] n show False
      by (auto simp: selectStable_def find_None_iff list_all_iff)
  qed
next
  assume "candidates cliV tags = []"
  then show "selectStable cliV tags = None" by (simp add: selectStable_def)
qed

lemma selectStable_Some:
  "selectStable cliV tags = Some m \<Longrightarrow> m \<in> set (candidates cliV tags)"
  by (auto simp: selectStable_def find_Some_iff)

text \<open>
  For every stable current version greater than \<^verbatim>\<open>0.0.0\<close>: \<^verbatim>\<open>GetCompatibleTag\<close> returns the
  strict maximum of the candidates, prefixed with \<^verbatim>\<open>"v"\<close>, and the breaking flag; it returns
  the not-found error exactly when there is no candidate.
\<close>

theorem GetCompatibleTag_stable:
  assumes "ParseTolerant currentVersion = Inr cliV" and "Pre cliV = []" and "GT cliV Version0"
    and "getTags c img = (Returns (Inr tags), sent)"
  shows "GetCompatibleTag c img currentVersion =
           (Returns
              (case selectStable cliV tags of
                 Some m \<Rightarrow> (''v'' @ Version_String m, list_ex (breaking cliV) (parsed tags), None)
               | None \<Rightarrow> ([], False, Some (notFound img))), sent) \<and>
         (selectStable cliV tags = None \<longleftrightarrow> candidates cliV tags = [])"
proof -
  have ne: "currentVersion \<noteq> []" "currentVersion \<noteq> ''dev''"
    using assms(1) ParseTolerant_empty ParseTolerant_dev by auto
  have z: "Equals Version0 Version0"
    by (simp add: Equals_def Compare_def Version0_def)
  have sel: "getCompatibleTag tags cliV =
      (case selectStable cliV tags of Some m \<Rightarrow> m | None \<Rightarrow> Version0,
       list_ex (breaking cliV) (parsed tags))"
    by (simp add: getCompatibleTag_selects strictMaximum_candidates [OF assms(3)])
  have nz: "\<not> Equals m Version0" if "selectStable cliV tags = Some m" for m
    using candidates_above [OF assms(3) selectStable_Some [OF that]] by (rule GT_not_Equals)
  have "GetCompatibleTag c img currentVersion =
           (Returns
              (case selectStable cliV tags of
                 Some m \<Rightarrow> (''v'' @ Version_String m, list_ex (breaking cliV) (parsed tags), None)
               | None \<Rightarrow> ([], False, Some (notFound img))), sent)"
    using assms(1,2,4) ne z nz
    by (cases "selectStable cliV tags") (simp_all add: GetCompatibleTag_def sel)
  then show ?thesis by (simp add: selectStable_None)
qed

text \<open>
  The examples of the specification for the stable client: current version \<^verbatim>\<open>1.2.0\<close> with
  the tags \<^verbatim>\<open>1.2.1\<close>, \<^verbatim>\<open>1.3.0\<close>, \<^verbatim>\<open>2.0.0\<close>, and current version \<^verbatim>\<open>0.5.0\<close> with the tags
  \<^verbatim>\<open>0.5.1\<close>, \<^verbatim>\<open>0.6.0\<close>.
\<close>

lemma GetCompatibleTag_stable_examples:
  "fst (GetCompatibleTag (registryWith [''1.2.1'', ''1.3.0'', ''2.0.0'']) ''srcd/gitbase'' ''1.2.0'')
     = Returns (''v1.3.0'', True, None) \<and>
   fst (GetCompatibleTag (registryWith [''0.5.1'', ''0.6.0'']) ''srcd/gitbase'' ''0.5.0'')
     = Returns (''v0.5.1'', True, None)"
  by code_simp

text \<open>
  The boundary is computed in 64-bit unsigned arithmetic: for the major version
  \<open>2\<^sup>6\<^sup>4 - 1\<close> it wraps around to \<^verbatim>\<open>0.0.0\<close>, and every stable tag that is not less than the
  current version counts as breaking.
\<close>

lemma breakingVersion_wraps:
  "breakingVersion (Version0\<lparr>Major := 18446744073709551615\<rparr>) = Version0 \<and>
   fst (GetCompatibleTag (registryWith [''18446744073709551615.1.0'']) ''srcd/gitbase''
      ''18446744073709551615.0.0'') = Returns ([], False, Some (notFound ''srcd/gitbase''))"
  by code_simp

text \<open>
  Claim C1 says that for every stable current version the strict maximum of the tags that
  are neither skipped nor breaking is returned, prefixed with \<^verbatim>\<open>"v"\<close>. At the current version
  \<^verbatim>\<open>0.0.0\<close> with the single tag \<^verbatim>\<open>0.0.0\<close> that tag parses, is stable, is not less than the
  current version and is below the boundary \<^verbatim>\<open>0.1.0\<close>, so it is the maximum of the remaining
  tags; \<^verbatim>\<open>GetCompatibleTag\<close> returns the not-found error, because the selected version
  equals the zero value that stands for "nothing selected".
\<close>

theorem GetCompatibleTag_zero_not_returned:
  "ParseTolerant ''0.0.0'' = Inr Version0 \<and>
   Pre Version0 = [] \<and>
   \<not> LT Version0 Version0 \<and>
   \<not> GTE Version0 (breakingVersion Version0) \<and>
   GetCompatibleTag (registryWith [''0.0.0'']) ''srcd/gitbase'' ''0.0.0'' =
     (Returns ([], False, Some (notFound ''srcd/gitbase'')),
      [GetToken ''srcd/gitbase'', GetTagsList ''srcd/gitbase'' ''token''])"
  by code_simp

text \<open>
  Claim C5 says that for a stable current version the not-found error is returned exactly
  when no tag qualifies as a non-breaking version at or above the current version. At the
  current version \<^verbatim>\<open>v0.0.0\<close> with the tags \<^verbatim>\<open>0.0.0\<close> and \<^verbatim>\<open>0.1.0\<close> the first tag qualifies,
  and the not-found error is returned.
\<close>

theorem GetCompatibleTag_zero_not_found:
  "list_ex (\<lambda>v. Pre v = [] \<and> \<not> LT v Version0 \<and> \<not> GTE v (breakingVersion Version0))
     (parsed [''0.0.0'', ''0.1.0'']) \<and>
   ParseTolerant ''v0.0.0'' = Inr Version0 \<and>
   fst (GetCompatibleTag (registryWith [''0.0.0'', ''0.1.0'']) ''srcd/gitbase'' ''v0.0.0'') =
     Returns ([], False, Some (notFound ''srcd/gitbase''))"
  by code_simp

section \<open>Properties of the SQL command\<close>

lemma pingDB_panics_iff:
  "pingDB p = Panics \<longleftrightarrow> sqlErr p \<noteq> None \<and> streamNil p \<and> \<not> timedOut p"
  by (cases "sqlErr p"; cases "recvErr p")
     (auto simp: pingDB_def helper_def send_def panicked_def)

lemma pingDB_returns_or_panics: "pingDB p \<noteq> BlocksForever"
  by (simp add: pingDB_def split: option.splits)

text \<open>Attempts that fail without a panic are followed by the next attempt.\<close>

lemma probeLoop_after_failures:
  "\<forall>j<m. \<exists>err. pingDB (ps (i + j)) = Returns (Some err) \<Longrightarrow>
     probeLoop ps i (m + k) = probeLoop ps (i + m) k"
proof (induction m arbitrary: i)
  case 0
  show ?case by simp
next
  case (Suc m)
  from Suc.prems have "\<exists>err. pingDB (ps (i + 0)) = Returns (Some err)" by blast
  then obtain err where e: "pingDB (ps i) = Returns (Some err)" by auto
  have "\<forall>j<m. \<exists>err. pingDB (ps (Suc i + j)) = Returns (Some err)"
  proof (intro allI impI)
    fix j assume "j < m"
    then have "Suc j < Suc m" by simp
    with Suc.prems have "\<exists>err. pingDB (ps (i + Suc j)) = Returns (Some err)" by blast
    then show "\<exists>err. pingDB (ps (Suc i + j)) = Returns (Some err)" by simp
  qed
  then have "probeLoop ps (Suc i) (m + k) = probeLoop ps (Suc i + m) k"
    by (rule Suc.IH)
  with e show ?case by simp
qed

text \<open>
  Let \<open>n\<close> attempts of the probe loop complete before the global timeout fires, and let the
  helper goroutine of none of them panic. \<^verbatim>\<open>ensureConnReady\<close> returns \<^verbatim>\<open>nil\<close> if one of these
  attempts returns \<^verbatim>\<open>nil\<close>, and then the loop has made no call of \<^verbatim>\<open>pingDB\<close> after the first
  such attempt; otherwise it returns the global timeout error, never an error of a probe.
\<close>

lemma probeLoop_eq:
  assumes "\<forall>j<k. pingDB (ps (i + j)) \<noteq> Panics"
  shows "probeLoop ps i k =
     (if \<exists>j<k. pingDB (ps (i + j)) = Returns None
      then Returns (Some (Suc (i + (LEAST j. pingDB (ps (i + j)) = Returns None))))
      else Returns None)"
  using assms
proof (induction k arbitrary: i)
  case 0
  show ?case by simp
next
  case (Suc k)
  have np: "pingDB (ps i) \<noteq> Panics"
    using Suc.prems by (metis add.right_neutral zero_less_Suc)
  have pr: "\<forall>j<k. pingDB (ps (Suc i + j)) \<noteq> Panics"
  proof (intro allI impI)
    fix j assume "j < k"
    then have "Suc j < Suc k" by simp
    with Suc.prems have "pingDB (ps (i + Suc j)) \<noteq> Panics" by blast
    then show "pingDB (ps (Suc i + j)) \<noteq> Panics" by simp
  qed
  note IH = Suc.IH [OF pr]
  show ?case
  proof (cases "pingDB (ps i)")
    case Panics
    with np show ?thesis by simp
  next
    case BlocksForever
    with pingDB_returns_or_panics show ?thesis by blast
  next
    case (Returns r)
    show ?thesis
    proof (cases r)
      case None
      with Returns have z: "pingDB (ps (i + 0)) = Returns None" by simp
      then have "(LEAST j. pingDB (ps (i + j)) = Returns None) = 0"
        by (intro Least_equality) simp_all
      moreover have "\<exists>j<Suc k. pingDB (ps (i + j)) = Returns None"
        using z by blast
      ultimately show ?thesis
        using Returns None by simp
    next
      case (Some err)
      have f: "pingDB (ps i) = Returns (Some err)"
        using Returns Some by simp
      have ex: "(\<exists>j<Suc k. pingDB (ps (i + j)) = Returns None) \<longleftrightarrow>
                (\<exists>j<k. pingDB (ps (Suc i + j)) = Returns None)"
      proof
        assume "\<exists>j<Suc k. pingDB (ps (i + j)) = Returns None"
        then obtain j where j: "j < Suc k" "pingDB (ps (i + j)) = Returns None" by blast
        with f have "j \<noteq> 0" by (cases j) auto
        then obtain j' where "j = Suc j'" by (cases j) auto
        with j show "\<exists>j<k. pingDB (ps (Suc i + j)) = Returns None" by auto
      next
        assume "\<exists>j<k. pingDB (ps (Suc i + j)) = Returns None"
        then obtain j where "j < k" "pingDB (ps (Suc i + j)) = Returns None" by blast
        then have "Suc j < Suc k" "pingDB (ps (i + Suc j)) = Returns None" by simp_all
        then show "\<exists>j<Suc k. pingDB (ps (i + j)) = Returns None" by blast
      qed
      have step: "probeLoop ps i (Suc k) = probeLoop ps (Suc i) k"
        using f by simp
      show ?thesis
      proof (cases "\<exists>j<k. pingDB (ps (Suc i + j)) = Returns None")
        case False
        then have "probeLoop ps (Suc i) k = Returns None"
          by (simp only: IH if_False)
        moreover have "\<not> (\<exists>j<Suc k. pingDB (ps (i + j)) = Returns None)"
          using ex False by simp
        ultimately show ?thesis
          by (simp only: step if_False)
      next
        case True
        then obtain j where j: "pingDB (ps (Suc i + j)) = Returns None" by blast
        have "pingDB (ps (i + 0)) \<noteq> Returns None" using f by simp
        moreover have "pingDB (ps (i + Suc j)) = Returns None" using j by simp
        ultimately have "(LEAST j. pingDB (ps (i + j)) = Returns None) =
            Suc (LEAST j. pingDB (ps (i + Suc j)) = Returns None)"
          by (rule Least_Suc [rotated, of "\<lambda>j. pingDB (ps (i + j)) = Returns None"])
        then have l: "i + (LEAST j. pingDB (ps (i + j)) = Returns None) =
            Suc i + (LEAST j. pingDB (ps (Suc i + j)) = Returns None)"
          by simp
        have "probeLoop ps (Suc i) k =
            Returns (Some (Suc (Suc i + (LEAST j. pingDB (ps (Suc i + j)) = Returns None))))"
          using True by (simp only: IH if_True)
        moreover have "\<exists>j<Suc k. pingDB (ps (i + j)) = Returns None"
          using ex True by simp
        ultimately show ?thesis
          by (simp only: step if_True l)
      qed
    qed
  qed
qed

lemma ensureConnReady_without_panic:
  assumes "\<forall>i<n. pingDB (ps i) \<noteq> Panics"
  shows "ensureConnReady ps n =
           (if \<exists>i<n. pingDB (ps i) = Returns None then Returns None
            else Returns (Some globalTimeoutError)) \<and>
         probeLoop ps 0 n =
           (if \<exists>i<n. pingDB (ps i) = Returns None
            then Returns (Some (Suc (LEAST i. pingDB (ps i) = Returns None)))
            else Returns None)"
proof -
  have "probeLoop ps 0 n =
     (if \<exists>i<n. pingDB (ps i) = Returns None
      then Returns (Some (Suc (LEAST i. pingDB (ps i) = Returns None)))
      else Returns None)"
    using probeLoop_eq [of n ps 0] assms by simp
  then show ?thesis
    by (auto simp: ensureConnReady_def)
qed

text \<open>
  Every probe fails in \<^verbatim>\<open>stream.Recv\<close>: the wait returns the global timeout error, not the
  error of the probe.
\<close>

lemma ensureConnReady_failing_Recv:
  "ensureConnReady (\<lambda>i. \<lparr>sqlErr = None, streamNil = False,
      recvErr = Some (External ''not ready''), timedOut = False\<rparr>) 300
     = Returns (Some globalTimeoutError)"
proof -
  have f: "pingDB \<lparr>sqlErr = None, streamNil = False,
      recvErr = Some (External ''not ready''), timedOut = False\<rparr> = Returns (Some (External ''not ready''))"
    by (simp add: pingDB_def helper_def send_def panicked_def)
  from ensureConnReady_without_panic [of 300 "\<lambda>i. \<lparr>sqlErr = None, streamNil = False,
      recvErr = Some (External ''not ready''), timedOut = False\<rparr>"] f
  show ?thesis by simp
qed

text \<open>
  Two failing probes and then a successful one, all before the timeout: the wait returns
  \<^verbatim>\<open>nil\<close> after three calls of \<^verbatim>\<open>pingDB\<close>.
\<close>

lemma ensureConnReady_third_attempt:
  "ensureConnReady (\<lambda>i. \<lparr>sqlErr = None, streamNil = False, recvErr = (if i < 2 then Some (External ''not ready'') else None), timedOut = False\<rparr>) 5 = Returns None \<and>
   probeLoop (\<lambda>i. \<lparr>sqlErr = None, streamNil = False, recvErr = (if i < 2 then Some (External ''not ready'') else None), timedOut = False\<rparr>) 0 5 = Returns (Some 3)"
  by code_simp

text \<open>
  The first attempt that does not simply fail decides: if its helper goroutine panics, the
  program ends while \<^verbatim>\<open>ensureConnReady\<close> waits, and the call does not return.
\<close>

lemma ensureConnReady_first_panic:
  assumes "m < n" and "pingDB (ps m) = Panics"
    and "\<forall>j<m. \<exists>err. pingDB (ps j) = Returns (Some err)"
  shows "ensureConnReady ps n = Panics"
proof -
  from assms(1) obtain k where "n = Suc (m + k)"
    using less_imp_Suc_add by blast
  then have n: "n = m + Suc k"
    by simp
  have f: "\<forall>j<m. \<exists>err. pingDB (ps (0 + j)) = Returns (Some err)"
    using assms(3) by simp
  have "probeLoop ps 0 (m + Suc k) = probeLoop ps (0 + m) (Suc k)"
    using f by (rule probeLoop_after_failures)
  also have "\<dots> = Panics"
    using assms(2) by simp
  finally have "probeLoop ps 0 n = Panics"
    by (simp only: n)
  then show ?thesis
    by (simp only: ensureConnReady_def outcome.case)
qed

text \<open>
  Claim C3, which says: \<^verbatim>\<open>ensureConnReady\<close> returns \<^verbatim>\<open>nil\<close> as soon as a probe attempt returns
  \<^verbatim>\<open>nil\<close> and the deadline error when no attempt succeeds before the global deadline; with a
  probe that always fails it returns the deadline error rather than hanging or surfacing
  a probe error. The program does not, when the probe fails in \<^verbatim>\<open>client.SQL\<close>: the helper
  goroutine of the first attempt sends the error, which the \<^verbatim>\<open>select\<close> of \<^verbatim>\<open>pingDB\<close> receives,
  and then calls \<^verbatim>\<open>Recv\<close> on the \<^verbatim>\<open>nil\<close> stream and panics. The program ends in the first of
  the 300 attempts that the five minutes have room for, and \<^verbatim>\<open>ensureConnReady\<close> returns
  neither the deadline error nor anything else.
\<close>

theorem ensureConnReady_panics_after_SQL_error:
  "firstSent (helper \<lparr>sqlErr = Some (External ''connection refused''), streamNil = True,
                      recvErr = None, timedOut = False\<rparr>)
     = Some (Some (External ''connection refused'')) \<and>
   panicked (helper \<lparr>sqlErr = Some (External ''connection refused''), streamNil = True,
                     recvErr = None, timedOut = False\<rparr>) \<and>
   pingDB \<lparr>sqlErr = Some (External ''connection refused''), streamNil = True,
           recvErr = None, timedOut = False\<rparr> = Panics \<and>
   ensureConnReady (\<lambda>i. \<lparr>sqlErr = Some (External ''connection refused''), streamNil = True,
                         recvErr = None, timedOut = False\<rparr>) 300 = Panics"
  by (simp add: ensureConnReady_def pingDB_def helper_def send_def panicked_def numeral_eq_Suc)

text \<open>
  The helper goroutine of \<^verbatim>\<open>pingDB\<close>: at most one of its sends on \<^verbatim>\<open>done\<close> is received, but
  after a send of the error of \<^verbatim>\<open>client.SQL\<close> has been received the goroutine goes on and calls
  \<^verbatim>\<open>stream.Recv\<close>: the branch \<^verbatim>\<open>if err != nil { done <- err }\<close> does not return.
\<close>

lemma helper_sends_once: "sends (helper p) \<le> 1"
  by (cases "timedOut p"; cases "sqlErr p"; cases "recvErr p"; cases "streamNil p")
     (simp_all add: helper_def send_def)

lemma helper_recv_after_error:
  "sqlErr p \<noteq> None \<Longrightarrow> \<not> timedOut p \<Longrightarrow> CallRecv \<in> set (helper p)"
  by (cases "recvErr p") (auto simp: helper_def send_def)

text \<open>
  Claim C10 says that the helper goroutine sends on \<^verbatim>\<open>done\<close> at most once and never calls
  \<^verbatim>\<open>Recv\<close> when \<^verbatim>\<open>client.SQL\<close> returned an error. When \<^verbatim>\<open>client.SQL\<close> fails before the query
  timeout, the goroutine sends that error, \<^verbatim>\<open>pingDB\<close> returns it, and the goroutine then
  calls \<^verbatim>\<open>stream.Recv\<close>. On a stream that is not \<^verbatim>\<open>nil\<close> that call returns, here with an error
  too, and the goroutine blocks for ever in a second send; on the \<^verbatim>\<open>nil\<close> stream the call
  panics.
\<close>

theorem helper_calls_Recv_after_SQL_error:
  "helper \<lparr>sqlErr = Some (External ''connection refused''), streamNil = False,
           recvErr = Some (External ''rpc error: unavailable''), timedOut = False\<rparr> =
     [CallSQL, Sent (Some (External ''connection refused'')), CallRecv,
      Blocked (Some (External ''rpc error: unavailable''))] \<and>
   pingDB \<lparr>sqlErr = Some (External ''connection refused''), streamNil = False,
           recvErr = Some (External ''rpc error: unavailable''), timedOut = False\<rparr> =
     Returns (Some (External ''connection refused'')) \<and>
   helper \<lparr>sqlErr = Some (External ''connection refused''), streamNil = True,
           recvErr = Some (External ''rpc error: unavailable''), timedOut = False\<rparr> =
     [CallSQL, Sent (Some (External ''connection refused'')), CallRecv, Panic]"
  by (simp add: helper_def send_def pingDB_def panicked_def)

text \<open>
  Claim C4 says that whenever the input loop ends first, the call blocks until the output
  loop has ended, for every way the input loop can end. When the input loop ends first
  with an error, the call returns that error without receiving from \<^verbatim>\<open>outputDone\<close>, here
  although the output loop does end.
\<close>

theorem attachStdio_input_error_no_wait:
  "selected \<lparr>isTerminal = False, setRawErr = None, restoreErr = None, closeWriteErr = None,
             outputCopy = Some None, inputCopy = Some (Some (External ''read /dev/stdin'')),
             endsFirst = Input\<rparr> = Some Input \<and>
   attachStdio \<lparr>isTerminal = False, setRawErr = None, restoreErr = None, closeWriteErr = None,
             outputCopy = Some None, inputCopy = Some (Some (External ''read /dev/stdin'')),
             endsFirst = Input\<rparr> =
     ([CloseWrite, Receive Input (Some (External ''read /dev/stdin''))],
      Returns (Some (External ''read /dev/stdin''))) \<and>
   \<not> waitedForOutput (fst (attachStdio
            \<lparr>isTerminal = False, setRawErr = None, restoreErr = None, closeWriteErr = None,
             outputCopy = Some None, inputCopy = Some (Some (External ''read /dev/stdin'')),
             endsFirst = Input\<rparr>))"
  by (simp add: selected_def attachStdio_def copyLoops_def inputGoroutine_def waitedForOutput_def)

text \<open>
  Claim C4, amended. Let the raw-mode setup, if standard input is a terminal, succeed. If
  the output loop ends first, the call receives its result and returns; it returns that
  result when standard input is not a terminal. If the input loop ends first, the write
  side has been half-closed (\<^verbatim>\<open>CloseWrite\<close>) before the call receives from \<^verbatim>\<open>inputDone\<close>. If
  the input loop ended with \<^verbatim>\<open>nil\<close>, the call then waits for the output loop and returns
  after it (the output loop's result when standard input is not a terminal), and blocks for
  ever if the output loop never ends. If the input loop ended with an error, the call
  returns without waiting for the output loop (that error when standard input is not a
  terminal).
\<close>

theorem attachStdio_teardown:
  assumes "isTerminal e \<longrightarrow> setRawErr e = None"
  shows "(selected e = Some Output \<longrightarrow>
            (\<exists>r v. outputCopy e = Some r \<and>
               fst (attachStdio e) =
                 (if isTerminal e then [SetRawTerminal] else []) @ [Receive Output r]
                   @ (if isTerminal e then [RestoreTerminal] else []) \<and>
               snd (attachStdio e) = Returns v \<and> (\<not> isTerminal e \<longrightarrow> v = r))) \<and>
         (selected e = Some Input \<and> inputCopy e = Some None \<longrightarrow>
            (case outputCopy e of
               Some r \<Rightarrow>
                 fst (attachStdio e) =
                   (if isTerminal e then [SetRawTerminal] else []) @ inputGoroutine e
                     @ [Receive Input None, Receive Output r]
                     @ (if isTerminal e then [RestoreTerminal] else []) \<and>
                 (\<exists>v. snd (attachStdio e) = Returns v \<and> (\<not> isTerminal e \<longrightarrow> v = r))
             | None \<Rightarrow>
                 fst (attachStdio e) =
                   (if isTerminal e then [SetRawTerminal] else []) @ inputGoroutine e
                     @ [Receive Input None] \<and>
                 snd (attachStdio e) = BlocksForever)) \<and>
         (selected e = Some Input \<and> inputCopy e = Some (Some err) \<longrightarrow>
            fst (attachStdio e) =
              (if isTerminal e then [SetRawTerminal] else []) @ inputGoroutine e
                @ [Receive Input (Some err)]
                @ (if isTerminal e then [RestoreTerminal] else []) \<and>
            \<not> waitedForOutput (fst (attachStdio e)) \<and>
            (\<exists>v. snd (attachStdio e) = Returns v \<and> (\<not> isTerminal e \<longrightarrow> v = Some err))) \<and>
         hd (inputGoroutine e) = CloseWrite"
  using assms
  by (auto simp: attachStdio_def copyLoops_def selected_def inputGoroutine_def
      waitedForOutput_def split: option.splits loop.splits)

text \<open>
  Witness of the amended C4: the input loop ends first with \<^verbatim>\<open>nil\<close>, the output loop later
  with an error; with and without a terminal the call returns after the output loop.
\<close>

theorem attachStdio_teardown_witness:
  "attachStdio \<lparr>isTerminal = True, setRawErr = None, restoreErr = None, closeWriteErr = None,
             outputCopy = Some (Some (External ''connection reset'')), inputCopy = Some None,
             endsFirst = Input\<rparr> =
     ([SetRawTerminal, CloseWrite, Receive Input None,
       Receive Output (Some (External ''connection reset'')), RestoreTerminal],
      Returns None) \<and>
   attachStdio \<lparr>isTerminal = False, setRawErr = None, restoreErr = None, closeWriteErr = None,
             outputCopy = Some (Some (External ''connection reset'')), inputCopy = Some None,
             endsFirst = Input\<rparr> =
     ([CloseWrite, Receive Input None, Receive Output (Some (External ''connection reset''))],
      Returns (Some (External ''connection reset'')))"
proof -
  let ?e = "\<lambda>t. \<lparr>isTerminal = t, setRawErr = None, restoreErr = None, closeWriteErr = None,
             outputCopy = Some (Some (External ''connection reset'')), inputCopy = Some None,
             endsFirst = Input\<rparr>"
  have t: "isTerminal (?e b) \<longrightarrow> setRawErr (?e b) = None" for b by simp
  have s: "selected (?e b) = Some Input" for b by (simp add: selected_def)
  have r: "snd (attachStdio (?e True)) = Returns None"
    by (simp add: attachStdio_def copyLoops_def selected_def)
  from attachStdio_teardown [OF t [of True]] attachStdio_teardown [OF t [of False]] s r
  show ?thesis
    by (auto simp: inputGoroutine_def prod_eq_iff)
qed

text \<open>
  Claim C9. Let standard input be a terminal and \<^verbatim>\<open>term.SetRawTerminal\<close> succeed. Whenever
  the \<^verbatim>\<open>select\<close> leads to a \<^verbatim>\<open>return\<close>, \<^verbatim>\<open>attachStdio\<close> returns the result of
  \<^verbatim>\<open>term.RestoreTerminal\<close>; in particular it returns \<^verbatim>\<open>nil\<close> when the restoration succeeds,
  also when the \<^verbatim>\<open>return\<close> statement had set a non-nil error of a copy loop.
\<close>

theorem attachStdio_returns_restore_result:
  assumes "isTerminal e" and "setRawErr e = None"
  shows "snd (attachStdio e) =
           (case snd (copyLoops e) of
              Returns err \<Rightarrow> Returns (restoreErr e)
            | BlocksForever \<Rightarrow> BlocksForever
            | Panics \<Rightarrow> Panics) \<and>
         (restoreErr e = None \<and> snd (copyLoops e) = Returns (Some err) \<longrightarrow>
            snd (attachStdio e) = Returns None)"
  using assms
  by (auto simp: attachStdio_def split: prod.splits outcome.splits)

text \<open>
  Witness of C9: the output loop ends with an error, the terminal is restored, and the
  call returns \<^verbatim>\<open>nil\<close>.
\<close>

theorem attachStdio_returns_restore_result_witness:
  "snd (copyLoops \<lparr>isTerminal = True, setRawErr = None, restoreErr = None, closeWriteErr = None,
             outputCopy = Some (Some (External ''connection reset'')), inputCopy = None,
             endsFirst = Output\<rparr>) = Returns (Some (External ''connection reset'')) \<and>
   snd (attachStdio \<lparr>isTerminal = True, setRawErr = None, restoreErr = None, closeWriteErr = None,
             outputCopy = Some (Some (External ''connection reset'')), inputCopy = None,
             endsFirst = Output\<rparr>) = Returns None"
proof -
  let ?e = "\<lparr>isTerminal = True, setRawErr = None, restoreErr = None, closeWriteErr = None,
             outputCopy = Some (Some (External ''connection reset'')), inputCopy = None,
             endsFirst = Output\<rparr>"
  have t: "isTerminal ?e" "setRawErr ?e = None" by simp_all
  have c: "snd (copyLoops ?e) = Returns (Some (External ''connection reset''))"
    by (simp add: copyLoops_def selected_def)
  from attachStdio_returns_restore_result [OF t, of "External ''connection reset''"] c
  show ?thesis by simp
qed

lemma sint_zero_iff: "sint (w :: 64 word) = 0 \<longleftrightarrow> w = 0"
  by (metis signed_eq_0_iff)

text \<open>
  Claim C7 says that with a non-empty query \<^verbatim>\<open>Execute\<close> returns \<^verbatim>\<open>nil\<close> exactly when the exit
  code is 0 and otherwise an error that reports the exit code. When copying the output of
  the mysql client to standard output fails, \<^verbatim>\<open>Execute\<close> returns the error of the copy, here
  although the exit code is 0.
\<close>

theorem Execute_copy_error_hides_exit_status:
  "readQuery ''SELECT 1'' (readyRun (Some (External ''write /dev/stdout: broken pipe'')) (Some 0))
     = Returns (Inr ''SELECT 1'') \<and>
   exit (readyRun (Some (External ''write /dev/stdout: broken pipe'')) (Some 0)) = Some 0 \<and>
   Execute [] ''SELECT 1'' (readyRun (Some (External ''write /dev/stdout: broken pipe'')) (Some 0))
     = Returns (Some (External ''write /dev/stdout: broken pipe''))"
  by code_simp

text \<open>
  Claim C7, amended. Let \<^verbatim>\<open>Execute\<close> reach the one-shot branch: no arguments, every step up
  to the start of the mysql client succeeds, and the query is not empty. If copying the
  output fails, it returns the error of the copy. If the copy succeeds, it returns \<^verbatim>\<open>nil\<close>
  exactly when the exit channel delivers 0, and when it delivers another code the error
  \<^verbatim>\<open>MySQL exited with status\<close> with that code (and it blocks while nothing is delivered).
\<close>

theorem Execute_one_shot:
  assumes "args = []" and "daemonClientErr env = None" and "startGitbaseWithClient env = None"
    and "ensureConnReady (probes env) (beforeTimeout env) = Returns None"
    and "readQuery argsQuery env = Returns (Inr query)" and "query \<noteq> []"
    and "runMysqlCliErr env = None"
  shows "Execute args argsQuery env =
           (case stdoutCopyErr env of
              Some err \<Rightarrow> Returns (Some err)
            | None \<Rightarrow>
                (case exit env of
                   None \<Rightarrow> BlocksForever
                 | Some code \<Rightarrow>
                     if code = 0 then Returns None
                     else Returns (Some (Errorf (''MySQL exited with status '' @ itoa (sint code))))))"
  using assms
  by (simp add: Execute_def oneShot_def sint_zero_iff split: option.splits)

text \<open>
  Witness of the amended C7: the exit codes 3 and 0 after a successful copy.
\<close>

theorem Execute_one_shot_witness:
  "Execute [] '' SELECT 1 '' (readyRun None (Some 3)) =
     Returns (Some (Errorf ''MySQL exited with status 3'')) \<and>
   Execute [] '' SELECT 1 '' (readyRun None (Some 0)) = Returns None"
proof -
  have a: "daemonClientErr (readyRun None c) = None" "startGitbaseWithClient (readyRun None c) = None"
    "runMysqlCliErr (readyRun None c) = None" "stdoutCopyErr (readyRun None c) = None"
    "exit (readyRun None c) = c" for c
    by (simp_all add: readyRun_def startGitbaseWithClient_def)
  have b: "ensureConnReady (probes (readyRun None c)) (beforeTimeout (readyRun None c)) = Returns None" for c
    by (simp add: readyRun_def ensureConnReady_def pingDB_def helper_def send_def panicked_def
        numeral_eq_Suc)
  have q: "readQuery '' SELECT 1 '' (readyRun None c) = Returns (Inr ''SELECT 1'')" for c
    unfolding readyRun_def by code_simp
  have n: "''SELECT 1'' \<noteq> []" by simp
  have i: "itoa 3 = ''3''" by code_simp
  from Execute_one_shot [OF refl a(1) a(2) b q n a(3), of "Some 3"]
       Execute_one_shot [OF refl a(1) a(2) b q n a(3), of "Some 0"]
  show ?thesis by (simp add: a i)
qed

end
